theory Spec2Isabelle
  imports Complex_Main
begin

section \<open>Data model\<close>

text \<open>
  Instants are the values of \<^verbatim>\<open>Date.now()\<close>: milliseconds since the epoch, a natural
  number. Differences of instants are taken in \<open>int\<close>, as the clock may step back.
\<close>

type_synonym timestamp = nat

text \<open>
  The settings object of the background script (\<^verbatim>\<open>DEFAULT_SETTINGS\<close> and whatever the
  store adds to it). \<^verbatim>\<open>backupInterval\<close> is no key of \<^verbatim>\<open>DEFAULT_SETTINGS\<close> and no field
  of the options form, yet the background script reads it: it is optional here, and
  \<open>None\<close> is JavaScript's \<^verbatim>\<open>undefined\<close>.
\<close>

record settings =
  minDays :: int
  maxTabs :: int
  autoBackupEnabled :: bool
  backupTime :: string
  backupDays :: "string list"
  toleranceHours :: int
  excludePrivate :: bool
  excludePinned :: bool
  maxTitleLength :: int
  theme :: string
  backupInterval :: "int option"

text \<open>The part of the host's tab object that the scripts read.\<close>

record tab =
  tab_id :: nat
  tab_url :: "string option"
  tab_title :: "string option"
  tab_incognito :: bool
  tab_pinned :: bool
  tab_favIconUrl :: "string option"
  tab_createdAt :: "timestamp option"
  tab_lastAccessed :: "timestamp option"
  tab_lastModified :: "timestamp option"

text \<open>
  A persisted record of \<^verbatim>\<open>tabData\<close>. The tracker writes title, url, createdAt and
  lastUpdated; a reconciliation pass adds favIconUrl; the dashboard writes url, title,
  createdAt and domain. A missing property is \<open>None\<close>.
\<close>

record trackedTab =
  title :: string
  url :: string
  createdAt :: "timestamp option"
  lastUpdated :: "timestamp option"
  favIconUrl :: "string option"
  domain :: "string option"

text \<open>
  The property names of the \<^verbatim>\<open>tabData\<close> object: the host's numeric tab identifier
  (\<^verbatim>\<open>tabData[tab.id]\<close>), or an identifier the dashboard generated
  (\<^verbatim>\<open>Date.now() + Math.random().toString(36).substr(2, 9)\<close>).
\<close>

datatype tabKey = TabId nat | Ident string

type_synonym tabMap = "tabKey \<rightharpoonup> trackedTab"

section \<open>JavaScript idioms\<close>

text \<open>\<^verbatim>\<open>s.startsWith(p)\<close>.\<close>

definition startsWith :: "string \<Rightarrow> string \<Rightarrow> bool" where
  "startsWith s p = (take (length p) s = p)"

text \<open>Truthiness of a possibly missing number: \<^verbatim>\<open>undefined\<close>, \<^verbatim>\<open>null\<close> and 0 are falsy.\<close>

fun truthyNum :: "nat option \<Rightarrow> bool" where
  "truthyNum None = False"
| "truthyNum (Some n) = (n \<noteq> 0)"

text \<open>Truthiness of a possibly missing string: \<^verbatim>\<open>undefined\<close> and the empty string are falsy.\<close>

fun truthyStr :: "string option \<Rightarrow> bool" where
  "truthyStr None = False"
| "truthyStr (Some s) = (s \<noteq> [])"

text \<open>\<^verbatim>\<open>x || d\<close> on numbers and on strings.\<close>

fun orNum :: "nat option \<Rightarrow> nat \<Rightarrow> nat" where
  "orNum None d = d"
| "orNum (Some n) d = (if n \<noteq> 0 then n else d)"

fun orStr :: "string option \<Rightarrow> string \<Rightarrow> string" where
  "orStr None d = d"
| "orStr (Some s) d = (if s \<noteq> [] then s else d)"

section \<open>Reconciliation pass (performBackup)\<close>

text \<open>
  \<^verbatim>\<open>!tab.url || (!tab.url.startsWith('http://') && !tab.url.startsWith('https://'))\<close>
  negated: the tab has an http or https URL.
\<close>

definition httpUrl :: "string option \<Rightarrow> bool" where
  "httpUrl u = (truthyStr u \<and> (startsWith (orStr u []) ''http://'' \<or> startsWith (orStr u []) ''https://''))"

text \<open>The three \<^verbatim>\<open>continue\<close> guards on private, pinned and non-http tabs.\<close>

definition passesExclusion :: "settings \<Rightarrow> tab \<Rightarrow> bool" where
  "passesExclusion s t =
     (\<not> (excludePrivate s \<and> tab_incognito t) \<and>
      \<not> (excludePinned s \<and> tab_pinned t) \<and>
      httpUrl (tab_url t))"

text \<open>
  \<^verbatim>\<open>tabData[tab.id]?.createdAt || tabData[tab.id]?.lastUpdated || now\<close>
\<close>

fun ageBase :: "timestamp \<Rightarrow> trackedTab option \<Rightarrow> timestamp" where
  "ageBase now None = now"
| "ageBase now (Some e) = orNum (createdAt e) (orNum (lastUpdated e) now)"

text \<open>\<^verbatim>\<open>(now - createdAt) / (24 * 60 * 60 * 1000)\<close>, in exact arithmetic.\<close>

definition ageDays :: "timestamp \<Rightarrow> timestamp \<Rightarrow> real" where
  "ageDays now c = real_of_int (int now - int c) / (24 * 60 * 60 * 1000)"

text \<open>
  The age gate: with \<^verbatim>\<open>minDays >= 0\<close> a tab whose age is below the minimum is skipped;
  with a negative minimum there is no gate.
\<close>

definition tooYoung :: "settings \<Rightarrow> timestamp \<Rightarrow> trackedTab option \<Rightarrow> bool" where
  "tooYoung s now e = (0 \<le> minDays s \<and> ageDays now (ageBase now e) < real_of_int (minDays s))"

text \<open>
  \<^verbatim>\<open>title.substring(0, max) + '...'\<close> when the title is longer than the maximum; a
  negative bound of \<^verbatim>\<open>substring\<close> counts as 0.
\<close>

definition truncateTitle :: "int \<Rightarrow> string \<Rightarrow> string" where
  "truncateTitle m t = (if m < int (length t) then take (nat m) t @ ''...'' else t)"

text \<open>
  The record written for a tab that passed the guards: a fresh one when there is no
  record or its createdAt is falsy, otherwise the old one with title, url, lastUpdated
  and favIconUrl replaced.
\<close>

definition freshRecord :: "settings \<Rightarrow> timestamp \<Rightarrow> tab \<Rightarrow> trackedTab" where
  "freshRecord s now t =
     \<lparr> title = truncateTitle (maxTitleLength s) (orStr (tab_title t) []),
       url = orStr (tab_url t) [],
       createdAt = Some now,
       lastUpdated = Some now,
       favIconUrl = Some (orStr (tab_favIconUrl t) []),
       domain = None \<rparr>"

definition refreshRecord :: "settings \<Rightarrow> timestamp \<Rightarrow> trackedTab \<Rightarrow> tab \<Rightarrow> trackedTab" where
  "refreshRecord s now e t =
     e \<lparr> title := truncateTitle (maxTitleLength s) (orStr (tab_title t) []),
        url := orStr (tab_url t) [],
        lastUpdated := Some now,
        favIconUrl := Some (orStr (tab_favIconUrl t) (orStr (favIconUrl e) [])) \<rparr>"

fun upsertRecord :: "settings \<Rightarrow> timestamp \<Rightarrow> trackedTab option \<Rightarrow> tab \<Rightarrow> trackedTab" where
  "upsertRecord s now None t = freshRecord s now t"
| "upsertRecord s now (Some e) t =
     (if \<not> truthyNum (createdAt e) then freshRecord s now t else refreshRecord s now e t)"

text \<open>The assignment \<^verbatim>\<open>tabData[tab.id] = { ... }\<close> of that record.\<close>

definition upsertTab :: "settings \<Rightarrow> timestamp \<Rightarrow> tabMap \<Rightarrow> tab \<Rightarrow> tabMap" where
  "upsertTab s now td t =
     td(TabId (tab_id t) \<mapsto> upsertRecord s now (td (TabId (tab_id t))) t)"

text \<open>One iteration of the loop body up to the upsert: \<open>None\<close> is \<^verbatim>\<open>continue\<close>.\<close>

definition backupTab :: "settings \<Rightarrow> timestamp \<Rightarrow> tabMap \<Rightarrow> tab \<Rightarrow> trackedTab option" where
  "backupTab s now td t =
     (if \<not> passesExclusion s t then None
      else if tooYoung s now (td (TabId (tab_id t))) then None
      else Some (upsertRecord s now (td (TabId (tab_id t))) t))"

text \<open>
  The \<^verbatim>\<open>for (const tab of tabs)\<close> loop, with the map and \<^verbatim>\<open>backupCount\<close> as loop state;
  it leaves by \<^verbatim>\<open>break\<close> once the count has reached \<^verbatim>\<open>maxTabs\<close>.
\<close>

fun backupLoop :: "settings \<Rightarrow> timestamp \<Rightarrow> tab list \<Rightarrow> tabMap \<Rightarrow> int \<Rightarrow> tabMap \<times> int" where
  "backupLoop s now [] td n = (td, n)"
| "backupLoop s now (t # ts) td n =
     (case backupTab s now td t of
        None \<Rightarrow> backupLoop s now ts td n
      | Some r \<Rightarrow>
          (if maxTabs s \<le> n + 1 then (td(TabId (tab_id t) \<mapsto> r), n + 1)
           else backupLoop s now ts (td(TabId (tab_id t) \<mapsto> r)) (n + 1)))"

text \<open>
  The tabs that reach the upsert statement, in order: the same traversal as
  \<open>backupLoop\<close>, recording the tab instead of the map.
\<close>

fun upserted :: "settings \<Rightarrow> timestamp \<Rightarrow> tab list \<Rightarrow> tabMap \<Rightarrow> int \<Rightarrow> tab list" where
  "upserted s now [] td n = []"
| "upserted s now (t # ts) td n =
     (case backupTab s now td t of
        None \<Rightarrow> upserted s now ts td n
      | Some r \<Rightarrow>
          (if maxTabs s \<le> n + 1 then [t]
           else t # upserted s now ts (td(TabId (tab_id t) \<mapsto> r)) (n + 1)))"

section \<open>The host and the state of the background script\<close>

text \<open>
  What the host answers during one handler run: \<^verbatim>\<open>Date.now()\<close>,
  \<^verbatim>\<open>new Date().getDay()\<close>, \<^verbatim>\<open>browser.tabs.query({})\<close> (\<open>Inl\<close> is a rejection with its
  message) and whether \<^verbatim>\<open>browser.storage.local.set\<close> rejects (\<open>Some\<close> message).
  \<open>h_tz\<close> is the offset of local time from UTC in milliseconds. A handler run reads
  the clock once: the few milliseconds between two \<^verbatim>\<open>Date.now()\<close> calls of one run are
  not modelled. Reads of the store are taken to succeed.
\<close>

record host =
  h_now :: timestamp
  h_day :: nat
  h_tabs :: "string + tab list"
  h_storageError :: "string option"
  h_tz :: int

text \<open>A stored settings object: any subset of the keys.\<close>

record storedSettings =
  s_minDays :: "int option"
  s_maxTabs :: "int option"
  s_autoBackupEnabled :: "bool option"
  s_backupTime :: "string option"
  s_backupDays :: "string list option"
  s_toleranceHours :: "int option"
  s_excludePrivate :: "bool option"
  s_excludePinned :: "bool option"
  s_maxTitleLength :: "int option"
  s_theme :: "string option"
  s_backupInterval :: "int option"

text \<open>
  The parameters of \<^verbatim>\<open>browser.alarms.create\<close>. In \<open>alarm_periodInMinutes\<close>, \<open>None\<close>
  is \<^verbatim>\<open>NaN\<close>. In \<open>alarm_when\<close>, \<open>None\<close> is a fire time that the model does not
  determine (see \<open>nextBackupTime\<close>).
\<close>

record alarmInfo =
  alarm_when :: "int option"
  alarm_periodInMinutes :: "int option"

text \<open>
  The state the host keeps for the extension: the three keys of
  \<^verbatim>\<open>browser.storage.local\<close> and the alarm named \<^verbatim>\<open>automaticBackup\<close>.
\<close>

record browser =
  st_settings :: "storedSettings option"
  st_tabData :: "tabMap option"
  st_lastAutomaticBackup :: "timestamp option"
  automaticBackupAlarm :: "alarmInfo option"

text \<open>The module-level variables of the background script.\<close>

record background =
  currentSettings :: settings
  tabData :: tabMap
  lastAutomaticBackup :: "timestamp option"

record backupResult =
  success :: bool
  count :: "int option"
  message :: "string option"

text \<open>\<^verbatim>\<open>saveTabData\<close>: writes the map, or rethrows the rejection of the store.\<close>

definition saveTabData :: "host \<Rightarrow> background \<Rightarrow> browser \<Rightarrow> string + browser" where
  "saveTabData h bg br =
     (case h_storageError h of
        Some e \<Rightarrow> Inl e
      | None \<Rightarrow> Inr (br \<lparr> st_tabData := Some (tabData bg) \<rparr>))"

text \<open>
  \<^verbatim>\<open>performBackup\<close>: the loop runs on the in-memory map; the map is then saved, and a
  rejection of the query or of the store becomes a failed result.
\<close>

definition performBackup :: "host \<Rightarrow> background \<times> browser \<Rightarrow> backupResult \<times> background \<times> browser" where
  "performBackup h w =
     (case h_tabs h of
        Inl e \<Rightarrow> (\<lparr> success = False, count = None, message = Some e \<rparr>, w)
      | Inr tabs \<Rightarrow>
          (let r = backupLoop (currentSettings (fst w)) (h_now h) tabs (tabData (fst w)) 0;
               bg = (fst w) \<lparr> tabData := fst r \<rparr>
           in case saveTabData h bg (snd w) of
                Inl e \<Rightarrow> (\<lparr> success = False, count = None, message = Some e \<rparr>, bg, snd w)
              | Inr br \<Rightarrow>
                  (if snd r = 0
                   then (\<lparr> success = True, count = Some 0, message = Some ''No tabs to back up'' \<rparr>, bg, br)
                   else (\<lparr> success = True, count = Some (snd r), message = None \<rparr>, bg, br))))"

section \<open>Tab tracker (handleTabUpdate)\<close>

text \<open>
  \<^verbatim>\<open>tabAgeDays >= currentSettings.minDays\<close> with \<^verbatim>\<open>tabAge = now - tab.createdAt\<close>: a tab
  without \<^verbatim>\<open>createdAt\<close> gives \<^verbatim>\<open>NaN\<close>, and the comparison is false.
\<close>

fun oldEnough :: "settings \<Rightarrow> timestamp \<Rightarrow> timestamp option \<Rightarrow> bool" where
  "oldEnough s now None = False"
| "oldEnough s now (Some c) = (real_of_int (minDays s) \<le> ageDays now c)"

definition handleTabUpdate ::
  "host \<Rightarrow> nat \<Rightarrow> string option \<Rightarrow> tab \<Rightarrow> background \<times> browser \<Rightarrow> background \<times> browser" where
  "handleTabUpdate h tabId status t w =
     (if status \<noteq> Some ''complete'' \<or> \<not> truthyStr (tab_url t) then w
      else if excludePrivate (currentSettings (fst w)) \<and> tab_incognito t then w
      else if excludePinned (currentSettings (fst w)) \<and> tab_pinned t then w
      else if \<not> startsWith (orStr (tab_url t) []) ''http://'' \<and>
              \<not> startsWith (orStr (tab_url t) []) ''https://'' then w
      else if oldEnough (currentSettings (fst w)) (h_now h) (tab_createdAt t) then
        (let bg = (fst w) \<lparr> tabData := (tabData (fst w))(TabId tabId \<mapsto>
                     \<lparr> title = truncateTitle (maxTitleLength (currentSettings (fst w))) (orStr (tab_title t) []),
                       url = orStr (tab_url t) [],
                       createdAt = tab_createdAt t,
                       lastUpdated = Some (h_now h),
                       favIconUrl = None,
                       domain = None \<rparr>) \<rparr>
         in case saveTabData h bg (snd w) of
              Inl e \<Rightarrow> (bg, snd w)
            | Inr br \<Rightarrow> (bg, br))
      else w)"

section \<open>Automatic backup (handleAlarm)\<close>

definition daysOfWeek :: "string list" where
  "daysOfWeek = [''Sun'', ''Mon'', ''Tue'', ''Wed'', ''Thu'', ''Fri'', ''Sat'']"

text \<open>
  \<^verbatim>\<open>backupDays.includes(daysOfWeek[new Date().getDay()])\<close>; an index past the array
  reads \<^verbatim>\<open>undefined\<close>, which no list of day names includes.
\<close>

definition isBackupDay :: "settings \<Rightarrow> nat \<Rightarrow> bool" where
  "isBackupDay s d = (d < length daysOfWeek \<and> daysOfWeek ! d \<in> set (backupDays s))"

text \<open>
  \<^verbatim>\<open>lastAutomaticBackup && (now - lastAutomaticBackup) < toleranceMs\<close>
\<close>

fun withinTolerance :: "settings \<Rightarrow> timestamp \<Rightarrow> timestamp option \<Rightarrow> bool" where
  "withinTolerance s now None = False"
| "withinTolerance s now (Some l) =
     (l \<noteq> 0 \<and> int now - int l < toleranceHours s * 60 * 60 * 1000)"

text \<open>
  \<^verbatim>\<open>handleAlarm\<close>: the weekday gate, the tolerance gate, then the pass; the fire time
  is recorded whatever the pass returned, and written to the store unless it rejects.
\<close>

definition handleAlarm :: "host \<Rightarrow> string \<Rightarrow> background \<times> browser \<Rightarrow> background \<times> browser" where
  "handleAlarm h name w =
     (if name \<noteq> ''automaticBackup'' then w
      else if \<not> isBackupDay (currentSettings (fst w)) (h_day h) then w
      else if withinTolerance (currentSettings (fst w)) (h_now h) (lastAutomaticBackup (fst w)) then w
      else
        (let r = performBackup h w;
             bg = (fst (snd r)) \<lparr> lastAutomaticBackup := Some (h_now h) \<rparr>
         in case h_storageError h of
              Some e \<Rightarrow> (bg, snd (snd r))
            | None \<Rightarrow> (bg, (snd (snd r)) \<lparr> st_lastAutomaticBackup := Some (h_now h) \<rparr>)))"

section \<open>Scheduling the alarm (scheduleAutomaticBackup)\<close>

text \<open>\<^verbatim>\<open>s.split(c)\<close> for a one-character separator.\<close>

fun splitOn :: "char \<Rightarrow> string \<Rightarrow> string list" where
  "splitOn c [] = [[]]"
| "splitOn c (x # xs) =
     (if x = c then [] # splitOn c xs
      else (case splitOn c xs of [] \<Rightarrow> [[x]] | p # ps \<Rightarrow> (x # p) # ps))"

text \<open>
  \<^verbatim>\<open>Number(s)\<close>, as far as the model determines it: a string of decimal digits whose
  value is at most 9007199254740992 is that value, and the empty string is 0. \<open>None\<close> says that
  the model does not determine the number. \<^verbatim>\<open>Number\<close> accepts more (a sign, a fraction,
  an exponent, hexadecimal digits, white space around the digits) and rounds larger
  values; none of that is modelled.
\<close>

definition isDigit :: "char \<Rightarrow> bool" where
  "isDigit c = (48 \<le> (of_char c :: nat) \<and> (of_char c :: nat) \<le> 57)"

definition digitsValue :: "string \<Rightarrow> nat" where
  "digitsValue s = foldl (\<lambda>n c. 10 * n + (of_char c - 48)) 0 s"

definition jsNumber :: "string \<Rightarrow> nat option" where
  "jsNumber s =
     (if list_all isDigit s \<and> digitsValue s \<le> 9007199254740992 then Some (digitsValue s)
      else None)"

text \<open>The time values that a \<^verbatim>\<open>Date\<close> holds: at most 8.64e15 milliseconds from the epoch.\<close>

definition inDateRange :: "int \<Rightarrow> bool" where
  "inDateRange t = (- 8640000000000000 \<le> t \<and> t \<le> 8640000000000000)"

text \<open>
  \<^verbatim>\<open>nextBackup.setHours(hours, minutes, 0, 0)\<close> on today's local date, moved by one day
  when it is not after now; \<^verbatim>\<open>getTime()\<close> of the result. Local time is UTC plus the
  fixed offset \<open>h_tz\<close>: a change of offset between now and the fire time (daylight
  saving) is not modelled. The result is \<open>None\<close>, a fire time that the model does not
  determine, when the offset is more than a day or when now, the date set or the date
  moved is outside the range of \<^verbatim>\<open>Date\<close> (where the code has an invalid date).
\<close>

definition fireTime :: "host \<Rightarrow> nat \<Rightarrow> nat \<Rightarrow> int option" where
  "fireTime h hours minutes =
     (let local = int (h_now h) + h_tz h;
          nextBackup = local - local mod 86400000
                       + int hours * 3600000 + int minutes * 60000 - h_tz h;
          fire = (if nextBackup \<le> int (h_now h) then nextBackup + 86400000 else nextBackup)
      in if inDateRange (int (h_now h)) \<and> \<bar>h_tz h\<bar> \<le> 86400000 \<and>
            inDateRange nextBackup \<and> inDateRange fire
         then Some fire else None)"

text \<open>
  \<^verbatim>\<open>const [hours, minutes] = backupTime.split(':').map(Number)\<close> and the fire time
  from them. The model determines it for a time of the form digits, colon, digits (and
  whatever follows a second colon); for every other string the result is \<open>None\<close>, a fire
  time that the model does not determine.
\<close>

definition nextBackupTime :: "host \<Rightarrow> string \<Rightarrow> int option" where
  "nextBackupTime h bt =
     (case map jsNumber (splitOn CHR '':'' bt) of
        Some hours # Some minutes # rest \<Rightarrow> fireTime h hours minutes
      | _ \<Rightarrow> None)"

text \<open>\<^verbatim>\<open>currentSettings.backupInterval * 24 * 60\<close>; \<^verbatim>\<open>undefined\<close> times a number is \<^verbatim>\<open>NaN\<close>.\<close>

fun intervalMinutes :: "int option \<Rightarrow> int option" where
  "intervalMinutes None = None"
| "intervalMinutes (Some d) = Some (d * 24 * 60)"

text \<open>
  The background script's \<^verbatim>\<open>scheduleAutomaticBackup\<close>: clears the alarm and creates it
  again with these parameters.
\<close>

definition scheduleAutomaticBackup :: "host \<Rightarrow> background \<times> browser \<Rightarrow> background \<times> browser" where
  "scheduleAutomaticBackup h w =
     (fst w, (snd w) \<lparr> automaticBackupAlarm := Some
        \<lparr> alarm_when = nextBackupTime h (backupTime (currentSettings (fst w))),
          alarm_periodInMinutes = intervalMinutes (backupInterval (currentSettings (fst w))) \<rparr> \<rparr>)"

text \<open>The options page's \<^verbatim>\<open>scheduleAutomaticBackup(settings)\<close>, with its fixed period.\<close>

definition options_scheduleAutomaticBackup :: "host \<Rightarrow> string \<Rightarrow> browser \<Rightarrow> browser" where
  "options_scheduleAutomaticBackup h bt br =
     br \<lparr> automaticBackupAlarm := Some
        \<lparr> alarm_when = nextBackupTime h bt, alarm_periodInMinutes = Some (24 * 60) \<rparr> \<rparr>"

definition cancelAutomaticBackup :: "browser \<Rightarrow> browser" where
  "cancelAutomaticBackup br = br \<lparr> automaticBackupAlarm := None \<rparr>"

section \<open>Settings: defaults and merging\<close>

text \<open>\<^verbatim>\<open>DEFAULT_SETTINGS\<close> of the background script and of the options page (the same text).\<close>

definition DEFAULT_SETTINGS :: settings where
  "DEFAULT_SETTINGS =
     \<lparr> minDays = 7, maxTabs = 1000, autoBackupEnabled = False, backupTime = ''05:00'',
       backupDays = [''Mon''], toleranceHours = 12, excludePrivate = True,
       excludePinned = False, maxTitleLength = 100, theme = ''auto'',
       backupInterval = None \<rparr>"

text \<open>\<^verbatim>\<open>DEFAULT_SETTINGS\<close> local to the dashboard page's \<^verbatim>\<open>getSettings\<close>.\<close>

definition dashboard_DEFAULT_SETTINGS :: settings where
  "dashboard_DEFAULT_SETTINGS =
     \<lparr> minDays = - 1, maxTabs = 1000, autoBackupEnabled = False, backupTime = ''05:00'',
       backupDays = [''Mon''], toleranceHours = 12, excludePrivate = True,
       excludePinned = False, maxTitleLength = 100, theme = ''auto'',
       backupInterval = None \<rparr>"

text \<open>\<^verbatim>\<open>{}\<close>\<close>

definition emptySettings :: storedSettings where
  "emptySettings =
     \<lparr> s_minDays = None, s_maxTabs = None, s_autoBackupEnabled = None, s_backupTime = None,
       s_backupDays = None, s_toleranceHours = None, s_excludePrivate = None,
       s_excludePinned = None, s_maxTitleLength = None, s_theme = None,
       s_backupInterval = None \<rparr>"

text \<open>One key of \<^verbatim>\<open>{ ...d, ...p }\<close>: the value of \<open>p\<close> when it has the key.\<close>

fun override :: "'a \<Rightarrow> 'a option \<Rightarrow> 'a" where
  "override d None = d"
| "override d (Some v) = v"

text \<open>\<^verbatim>\<open>{ ...d, ...p }\<close>\<close>

definition mergeSettings :: "settings \<Rightarrow> storedSettings \<Rightarrow> settings" where
  "mergeSettings d p =
     \<lparr> minDays = override (minDays d) (s_minDays p),
       maxTabs = override (maxTabs d) (s_maxTabs p),
       autoBackupEnabled = override (autoBackupEnabled d) (s_autoBackupEnabled p),
       backupTime = override (backupTime d) (s_backupTime p),
       backupDays = override (backupDays d) (s_backupDays p),
       toleranceHours = override (toleranceHours d) (s_toleranceHours p),
       excludePrivate = override (excludePrivate d) (s_excludePrivate p),
       excludePinned = override (excludePinned d) (s_excludePinned p),
       maxTitleLength = override (maxTitleLength d) (s_maxTitleLength p),
       theme = override (theme d) (s_theme p),
       backupInterval = (case s_backupInterval p of None \<Rightarrow> backupInterval d | Some i \<Rightarrow> Some i) \<rparr>"

text \<open>The settings object as the store keeps it.\<close>

definition toStored :: "settings \<Rightarrow> storedSettings" where
  "toStored c =
     \<lparr> s_minDays = Some (minDays c), s_maxTabs = Some (maxTabs c),
       s_autoBackupEnabled = Some (autoBackupEnabled c), s_backupTime = Some (backupTime c),
       s_backupDays = Some (backupDays c), s_toleranceHours = Some (toleranceHours c),
       s_excludePrivate = Some (excludePrivate c), s_excludePinned = Some (excludePinned c),
       s_maxTitleLength = Some (maxTitleLength c), s_theme = Some (theme c),
       s_backupInterval = backupInterval c \<rparr>"

text \<open>
  The dashboard page's \<^verbatim>\<open>getSettings\<close>:
  \<^verbatim>\<open>{ ...DEFAULT_SETTINGS, ...(result.settings || {}) }\<close>. Reads of the store are taken
  to succeed.
\<close>

definition getSettings :: "browser \<Rightarrow> settings" where
  "getSettings br =
     mergeSettings dashboard_DEFAULT_SETTINGS
       (case st_settings br of None \<Rightarrow> emptySettings | Some p \<Rightarrow> p)"

text \<open>
  The background script's \<^verbatim>\<open>loadSettings\<close>: merges when the store has a settings
  object, and leaves \<^verbatim>\<open>currentSettings\<close> as it is otherwise.
\<close>

definition loadSettings :: "background \<times> browser \<Rightarrow> background \<times> browser" where
  "loadSettings w =
     (case st_settings (snd w) of
        None \<Rightarrow> w
      | Some p \<Rightarrow> ((fst w) \<lparr> currentSettings := mergeSettings DEFAULT_SETTINGS p \<rparr>, snd w))"

text \<open>The background script as its module-level initialisers leave it.\<close>

definition initialBackground :: background where
  "initialBackground =
     \<lparr> currentSettings = DEFAULT_SETTINGS, tabData = Map.empty, lastAutomaticBackup = None \<rparr>"

section \<open>Saving the settings form (saveSettings)\<close>

text \<open>
  The form as \<^verbatim>\<open>saveSettings\<close> reads it. A number field holds the result of
  \<^verbatim>\<open>parseInt\<close> on its text, \<open>None\<close> for \<^verbatim>\<open>NaN\<close>.
\<close>

record optionsForm =
  f_minDays :: "int option"
  f_maxTabs :: "int option"
  f_autoBackupEnabled :: bool
  f_backupTime :: string
  f_backupDays :: "string list"
  f_toleranceHours :: "int option"
  f_excludePrivate :: bool
  f_excludePinned :: bool
  f_maxTitleLength :: "int option"
  f_theme :: string

text \<open>\<^verbatim>\<open>parseInt(v) || d\<close>: \<^verbatim>\<open>NaN\<close> and 0 are falsy.\<close>

fun orInt :: "int option \<Rightarrow> int \<Rightarrow> int" where
  "orInt None d = d"
| "orInt (Some n) d = (if n \<noteq> 0 then n else d)"

text \<open>The object literal \<^verbatim>\<open>settings\<close>: ten keys, and no \<^verbatim>\<open>backupInterval\<close>.\<close>

definition collectSettings :: "optionsForm \<Rightarrow> storedSettings" where
  "collectSettings f =
     \<lparr> s_minDays = Some (orInt (f_minDays f) (minDays DEFAULT_SETTINGS)),
       s_maxTabs = Some (orInt (f_maxTabs f) (maxTabs DEFAULT_SETTINGS)),
       s_autoBackupEnabled = Some (f_autoBackupEnabled f),
       s_backupTime = Some (orStr (Some (f_backupTime f)) (backupTime DEFAULT_SETTINGS)),
       s_backupDays = Some (f_backupDays f),
       s_toleranceHours = Some (orInt (f_toleranceHours f) (toleranceHours DEFAULT_SETTINGS)),
       s_excludePrivate = Some (f_excludePrivate f),
       s_excludePinned = Some (f_excludePinned f),
       s_maxTitleLength = Some (orInt (f_maxTitleLength f) (maxTitleLength DEFAULT_SETTINGS)),
       s_theme = Some (orStr (Some (f_theme f)) (theme DEFAULT_SETTINGS)),
       s_backupInterval = None \<rparr>"

text \<open>\<^verbatim>\<open>v < lo || v > hi\<close>; both comparisons are false on \<^verbatim>\<open>undefined\<close>.\<close>

fun outside :: "int option \<Rightarrow> int \<Rightarrow> int \<Rightarrow> bool" where
  "outside None lo hi = False"
| "outside (Some v) lo hi = (v < lo \<or> hi < v)"

text \<open>The four checks in their order; \<open>Some\<close> is the message of the error thrown.\<close>

definition validateSettings :: "storedSettings \<Rightarrow> string option" where
  "validateSettings p =
     (if outside (s_minDays p) 1 365 then Some ''Minimum days must be between 1 and 365''
      else if outside (s_maxTabs p) 1 1000 then Some ''Maximum tabs must be between 1 and 1000''
      else if outside (s_backupInterval p) 1 30 then Some ''Backup interval must be between 1 and 30 days''
      else if outside (s_toleranceHours p) 1 24 then Some ''Tolerance hours must be between 1 and 24''
      else None)"

text \<open>
  The background's answer to the \<^verbatim>\<open>updateSettings\<close> message: merge into
  \<^verbatim>\<open>currentSettings\<close>, write them to the store, then schedule or clear the alarm. A
  rejection of the store ends the handler after the merge.
\<close>

definition updateSettings :: "host \<Rightarrow> storedSettings \<Rightarrow> background \<times> browser \<Rightarrow> background \<times> browser" where
  "updateSettings h p w =
     (let bg = (fst w) \<lparr> currentSettings := mergeSettings (currentSettings (fst w)) p \<rparr>
      in case h_storageError h of
           Some e \<Rightarrow> (bg, snd w)
         | None \<Rightarrow>
             (let br = (snd w) \<lparr> st_settings := Some (toStored (currentSettings bg)) \<rparr>
              in if autoBackupEnabled (currentSettings bg)
                 then scheduleAutomaticBackup h (bg, br)
                 else (bg, br \<lparr> automaticBackupAlarm := None \<rparr>)))"

text \<open>
  \<^verbatim>\<open>saveSettings\<close>: collect, validate, write to the store, tell the background, set the
  alarm. The first component is the status shown: \<open>Inl\<close> the message of the error
  caught, \<open>Inr\<close> the success text.
\<close>

definition saveSettings ::
  "host \<Rightarrow> optionsForm \<Rightarrow> background \<times> browser \<Rightarrow> (string + string) \<times> background \<times> browser" where
  "saveSettings h f w =
     (let p = collectSettings f
      in case validateSettings p of
           Some e \<Rightarrow> (Inl e, w)
         | None \<Rightarrow>
             (case h_storageError h of
                Some e \<Rightarrow> (Inl e, w)
              | None \<Rightarrow>
                  (let w1 = updateSettings h p (fst w, (snd w) \<lparr> st_settings := Some p \<rparr>);
                       bt = override [] (s_backupTime p)
                   in (Inr ''Settings saved successfully!'',
                       fst w1,
                       if override False (s_autoBackupEnabled p)
                       then options_scheduleAutomaticBackup h bt (snd w1)
                       else cancelAutomaticBackup (snd w1)))))"

section \<open>Dashboard merge (loadTabLog)\<close>

text \<open>
  A row of \<^verbatim>\<open>combinedTabs\<close>, with the properties the merge decides (a row also
  carries the domain and whatever else the tab or the record had). \<open>None\<close> in
  \<open>row_ageInDays\<close> is \<^verbatim>\<open>NaN\<close>.
\<close>

record row =
  row_url :: string
  row_title :: "string option"
  row_tabId :: tabKey
  row_logged :: bool
  row_createdAt :: "timestamp option"
  row_ageInDays :: "int option"

text \<open>
  \<^verbatim>\<open>obj[k] = v\<close> on an object whose keys are enumerated in insertion order: a key
  that is there keeps its place.
\<close>

fun assign :: "'k \<Rightarrow> 'v \<Rightarrow> ('k \<times> 'v) list \<Rightarrow> ('k \<times> 'v) list" where
  "assign k v [] = [(k, v)]"
| "assign k v (kv # kvs) = (if fst kv = k then (k, v) # kvs else kv # assign k v kvs)"

text \<open>\<^verbatim>\<open>openTabsMap\<close>: the open http and https tabs by URL, the last tab of a URL winning.\<close>

fun openTabsMap :: "tab list \<Rightarrow> (string \<times> tab) list \<Rightarrow> (string \<times> tab) list" where
  "openTabsMap [] m = m"
| "openTabsMap (t # ts) m =
     (if \<not> httpUrl (tab_url t) then openTabsMap ts m
      else openTabsMap ts (assign (orStr (tab_url t) []) t m))"

text \<open>\<^verbatim>\<open>loggedUrlSet\<close>: the truthy URLs of the persisted records.\<close>

definition loggedUrlSet :: "(tabKey \<times> trackedTab) list \<Rightarrow> string list" where
  "loggedUrlSet logged = filter (\<lambda>u. u \<noteq> []) (map (\<lambda>kv. url (snd kv)) logged)"

text \<open>The inner loop: the first record, in enumeration order, with this URL.\<close>

fun loggedEntry :: "(tabKey \<times> trackedTab) list \<Rightarrow> string \<Rightarrow> trackedTab option" where
  "loggedEntry [] u = None"
| "loggedEntry (kv # kvs) u = (if url (snd kv) = u then Some (snd kv) else loggedEntry kvs u)"

text \<open>\<^verbatim>\<open>Math.floor((now - createdAt) / (24 * 60 * 60 * 1000))\<close>\<close>

fun floorAgeDays :: "timestamp \<Rightarrow> timestamp option \<Rightarrow> int option" where
  "floorAgeDays now None = None"
| "floorAgeDays now (Some c) = Some ((int now - int c) div (24 * 60 * 60 * 1000))"

text \<open>The row pushed for an open URL.\<close>

definition openRow :: "timestamp \<Rightarrow> (tabKey \<times> trackedTab) list \<Rightarrow> string \<times> tab \<Rightarrow> row" where
  "openRow now logged ut =
     (let isLogged = (fst ut \<in> set (loggedUrlSet logged));
          entry = (if isLogged then loggedEntry logged (fst ut) else None)
      in \<lparr> row_url = orStr (tab_url (snd ut)) [],
           row_title = tab_title (snd ut),
           row_tabId = TabId (tab_id (snd ut)),
           row_logged = isLogged,
           row_createdAt =
             (case entry of
                Some e \<Rightarrow> createdAt e
              | None \<Rightarrow> Some (orNum (tab_lastAccessed (snd ut)) (orNum (tab_lastModified (snd ut)) now))),
           row_ageInDays =
             (case entry of Some e \<Rightarrow> floorAgeDays now (createdAt e) | None \<Rightarrow> Some 0) \<rparr>)"

text \<open>The row pushed for a persisted record whose URL is not open.\<close>

definition loggedRow :: "timestamp \<Rightarrow> tabKey \<times> trackedTab \<Rightarrow> row" where
  "loggedRow now kv =
     \<lparr> row_url = url (snd kv),
       row_title = Some (title (snd kv)),
       row_tabId = fst kv,
       row_logged = True,
       row_createdAt = createdAt (snd kv),
       row_ageInDays = floorAgeDays now (createdAt (snd kv)) \<rparr>"

text \<open>
  The names of the properties of \<^verbatim>\<open>Object.prototype\<close> in ECMAScript. Each holds a
  function or an object, a truthy value.
\<close>

definition objectPrototypeNames :: "string list" where
  "objectPrototypeNames =
     [''constructor'', ''hasOwnProperty'', ''isPrototypeOf'', ''propertyIsEnumerable'',
      ''toLocaleString'', ''toString'', ''valueOf'', ''__proto__'', ''__defineGetter__'',
      ''__defineSetter__'', ''__lookupGetter__'', ''__lookupSetter__'']"

text \<open>
  \<^verbatim>\<open>openTabsMap[k]\<close> read for its truthiness. \<^verbatim>\<open>openTabsMap\<close> is a plain object
  (\<^verbatim>\<open>{}\<close>): the lookup finds its own keys, whose values are tab objects, and the
  properties it inherits from \<^verbatim>\<open>Object.prototype\<close>. \<open>inherited\<close> lists the names of
  those in the host (\<open>objectPrototypeNames\<close>, and whatever the engine adds).
\<close>

definition openTabsMapHas :: "string list \<Rightarrow> (string \<times> tab) list \<Rightarrow> string \<Rightarrow> bool" where
  "openTabsMapHas inherited m k = (k \<in> fst ` set m \<or> k \<in> set inherited)"

text \<open>
  \<^verbatim>\<open>loadTabLog\<close>, from the answers of the store and of the tab query to \<^verbatim>\<open>tabRows\<close>.
  \<open>logged\<close> is the stored \<^verbatim>\<open>tabData\<close> object as \<^verbatim>\<open>for ... in\<close> enumerates it; a
  rejected tab query is the empty list of open tabs. The second loop pushes a row for
  every record with \<^verbatim>\<open>!openTabsMap[loggedTab.url]\<close>.
\<close>

definition loadTabLog ::
  "string list \<Rightarrow> timestamp \<Rightarrow> tab list \<Rightarrow> (tabKey \<times> trackedTab) list \<Rightarrow> row list" where
  "loadTabLog inherited now openTabs logged =
     (let m = openTabsMap openTabs []
      in map (openRow now logged) m
         @ map (loggedRow now)
             (filter (\<lambda>kv. \<not> openTabsMapHas inherited m (url (snd kv))) logged))"

section \<open>Notions of the specification\<close>

text \<open>
  The age of an open tab as the specification words it: now minus the creation time
  of the tab's record, and zero for a tab without a record; "younger than the
  minimum" compares it with \<^verbatim>\<open>minDays\<close>. A record without a creation time has no such
  age, and is not younger than anything.
\<close>

fun youngerThanMinimum :: "settings \<Rightarrow> timestamp \<Rightarrow> trackedTab option \<Rightarrow> bool" where
  "youngerThanMinimum s now None = (0 < minDays s)"
| "youngerThanMinimum s now (Some e) =
     (case createdAt e of
        None \<Rightarrow> False
      | Some c \<Rightarrow> ageDays now c < real_of_int (minDays s))"

text \<open>The upsert predicate of a pass: the tab passes every \<^verbatim>\<open>continue\<close> guard.\<close>

definition qualifies :: "settings \<Rightarrow> timestamp \<Rightarrow> tabMap \<Rightarrow> tab \<Rightarrow> bool" where
  "qualifies s now td t = (passesExclusion s t \<and> \<not> tooYoung s now (td (TabId (tab_id t))))"

text \<open>Passes one after the other, each with the host's answers of its time.\<close>

fun repeatedPasses :: "host list \<Rightarrow> background \<times> browser \<Rightarrow> background \<times> browser" where
  "repeatedPasses [] w = w"
| "repeatedPasses (h # hs) w = repeatedPasses hs (snd (performBackup h w))"

section \<open>Scenarios\<close>

text \<open>Concrete tabs, hosts and states on which the properties below are exercised.\<close>

definition mkTab :: "nat \<Rightarrow> string \<Rightarrow> string \<Rightarrow> tab" where
  "mkTab i u ti =
     \<lparr> tab_id = i, tab_url = Some u, tab_title = Some ti, tab_incognito = False,
       tab_pinned = False, tab_favIconUrl = None, tab_createdAt = None,
       tab_lastAccessed = None, tab_lastModified = None \<rparr>"

definition mkHost :: "timestamp \<Rightarrow> tab list \<Rightarrow> host" where
  "mkHost now tabs =
     \<lparr> h_now = now, h_day = 1, h_tabs = Inr tabs, h_storageError = None, h_tz = 0 \<rparr>"

definition mkBackground :: "settings \<Rightarrow> tabMap \<Rightarrow> background" where
  "mkBackground s td = \<lparr> currentSettings = s, tabData = td, lastAutomaticBackup = None \<rparr>"

definition emptyBrowser :: browser where
  "emptyBrowser =
     \<lparr> st_settings = None, st_tabData = None, st_lastAutomaticBackup = None,
       automaticBackupAlarm = None \<rparr>"

definition mkRecord :: "string \<Rightarrow> string \<Rightarrow> timestamp \<Rightarrow> trackedTab" where
  "mkRecord ti u c =
     \<lparr> title = ti, url = u, createdAt = Some c, lastUpdated = Some c, favIconUrl = Some [],
       domain = None \<rparr>"

definition debugSettings :: settings where
  "debugSettings = DEFAULT_SETTINGS \<lparr> minDays := - 1, maxTabs := 1 \<rparr>"

definition zeroCap :: settings where
  "zeroCap = DEFAULT_SETTINGS \<lparr> minDays := - 1, maxTabs := 0 \<rparr>"

definition twoTabs :: "tab list" where
  "twoTabs = [mkTab 1 ''https://a.example/'' ''A'', mkTab 2 ''https://b.example/'' ''B'']"


definition youngRecord :: trackedTab where
  "youngRecord = mkRecord ''A'' ''https://a.example/'' 913600000"

definition oldRecord :: trackedTab where
  "oldRecord = mkRecord ''A'' ''https://a.example/'' 100000000"

definition movedTab :: tab where
  "movedTab = mkTab 1 ''https://b.example/'' ''B''"

definition shortTitles :: settings where
  "shortTitles = DEFAULT_SETTINGS \<lparr> minDays := - 1, maxTitleLength := 5 \<rparr>"

definition longTitleTab :: tab where
  "longTitleTab = mkTab 1 ''https://a.example/'' ''abcdefgh''"

definition mondaySettings :: settings where
  "mondaySettings = DEFAULT_SETTINGS \<lparr> autoBackupEnabled := True \<rparr>"

definition firstFiring :: host where
  "firstFiring = mkHost 2000000000 twoTabs"

definition secondFiring :: host where
  "secondFiring = mkHost 2003600000 twoTabs"

definition outOfRangeForm :: optionsForm where
  "outOfRangeForm =
     \<lparr> f_minDays = Some 400, f_maxTabs = Some 50, f_autoBackupEnabled = True,
       f_backupTime = ''06:30'', f_backupDays = [''Mon'', ''Thu''], f_toleranceHours = Some 12,
       f_excludePrivate = True, f_excludePinned = False, f_maxTitleLength = Some 80,
       f_theme = ''dark'' \<rparr>"

definition savedBrowser :: browser where
  "savedBrowser = emptyBrowser \<lparr> st_settings := Some (toStored DEFAULT_SETTINGS) \<rparr>"

definition storeWithEmptySettings :: browser where
  "storeWithEmptySettings = emptyBrowser \<lparr> st_settings := Some emptySettings \<rparr>"

definition closedRecord :: trackedTab where
  "closedRecord = mkRecord ''C'' ''https://c.example/'' 100000000"

definition twoRecordsOneUrl :: "(tabKey \<times> trackedTab) list" where
  "twoRecordsOneUrl = [(Ident ''k1'', closedRecord), (Ident ''k2'', closedRecord)]"

definition prototypeRecord :: trackedTab where
  "prototypeRecord = mkRecord ''T'' ''toString'' 100000000"

definition mixedLog :: "(tabKey \<times> trackedTab) list" where
  "mixedLog =
     [(TabId 1, oldRecord), (Ident ''k1'', closedRecord), (Ident ''k2'', closedRecord),
      (Ident ''k3'', prototypeRecord)]"

section \<open>Properties of the reconciliation pass\<close>

lemmas scenario_defs = mkTab_def mkHost_def mkBackground_def emptyBrowser_def mkRecord_def

lemmas pass_defs = performBackup_def saveTabData_def backupTab_def passesExclusion_def
  httpUrl_def startsWith_def tooYoung_def ageDays_def freshRecord_def refreshRecord_def
  truncateTitle_def DEFAULT_SETTINGS_def Let_def

lemma young_tooYoung:
  "0 \<le> minDays s \<Longrightarrow> youngerThanMinimum s now e \<Longrightarrow> tooYoung s now e"
proof (cases e)
  case None
  assume "0 \<le> minDays s" "youngerThanMinimum s now e"
  with None show ?thesis by (simp add: tooYoung_def ageDays_def)
next
  case (Some r)
  assume a: "0 \<le> minDays s" "youngerThanMinimum s now e"
  then obtain c where c: "createdAt r = Some c" and lt: "ageDays now c < real_of_int (minDays s)"
    using Some by (auto split: option.splits)
  have "ageDays now (ageBase now (Some r)) \<le> ageDays now c"
    using c by (cases "lastUpdated r") (auto simp: ageDays_def divide_right_mono)
  with lt a Some show ?thesis by (simp add: tooYoung_def)
qed

lemma backupTab_tooYoung: "tooYoung s now (td (TabId (tab_id t))) \<Longrightarrow> backupTab s now td t = None"
  by (simp add: backupTab_def)

lemma loop_skips_young:
  "tooYoung s now (td k) \<Longrightarrow>
     fst (backupLoop s now ts td n) k = td k \<and> k \<notin> (\<lambda>t. TabId (tab_id t)) ` set (upserted s now ts td n)"
proof (induction ts arbitrary: td n)
  case Nil
  then show ?case by simp
next
  case (Cons t ts)
  show ?case
  proof (cases "backupTab s now td t")
    case None
    with Cons show ?thesis by simp
  next
    case (Some r)
    then have ne: "TabId (tab_id t) \<noteq> k"
      using Cons.prems by (auto simp: backupTab_def split: if_splits)
    then have "tooYoung s now ((td(TabId (tab_id t) \<mapsto> r)) k)" using Cons.prems by simp
    from Cons.IH[of "td(TabId (tab_id t) \<mapsto> r)" "n + 1", OF this]
    have ih: "fst (backupLoop s now ts (td(TabId (tab_id t) \<mapsto> r)) (n + 1)) k = (td(TabId (tab_id t) \<mapsto> r)) k"
      and nin: "k \<notin> (\<lambda>t. TabId (tab_id t)) ` set (upserted s now ts (td(TabId (tab_id t) \<mapsto> r)) (n + 1))"
      by blast+
    have upd: "(td(TabId (tab_id t) \<mapsto> r)) k = td k" using ne by simp
    show ?thesis
    proof (cases "maxTabs s \<le> n + 1")
      case True
      with Some ne upd show ?thesis by auto
    next
      case False
      with Some ne show ?thesis using ih nin unfolding upd by auto
    qed
  qed
qed

lemma upserted_negative:
  "minDays s < 0 \<Longrightarrow> n < maxTabs s \<Longrightarrow>
     upserted s now ts td n = take (nat (maxTabs s - n)) (filter (passesExclusion s) ts)"
proof (induction ts arbitrary: td n)
  case Nil
  then show ?case by simp
next
  case (Cons t ts)
  have bt: "backupTab s now td t = (if passesExclusion s t then Some (upsertRecord s now (td (TabId (tab_id t))) t) else None)" for td
    using Cons.prems(1) by (simp add: backupTab_def tooYoung_def)
  show ?case
  proof (cases "passesExclusion s t")
    case False
    with Cons bt show ?thesis by simp
  next
    case True
    show ?thesis
    proof (cases "maxTabs s \<le> n + 1")
      case le: True
      with Cons.prems have "nat (maxTabs s - n) = 1" by simp
      with True bt le show ?thesis by simp
    next
      case gt: False
      then have "nat (maxTabs s - n) = Suc (nat (maxTabs s - (n + 1)))" by simp
      with True bt gt Cons.IH[OF Cons.prems(1), of "n + 1"] show ?thesis by simp
    qed
  qed
qed


lemma backupLoop_count:
  "snd (backupLoop s now ts td n) = n + int (length (upserted s now ts td n))"
  by (induction ts arbitrary: td n) (auto split: option.splits)

lemma upserted_subset: "set (upserted s now ts td n) \<subseteq> set ts"
  by (induction ts arbitrary: td n) (auto split: option.splits if_splits)

lemma loop_keeps_other:
  "k \<notin> (\<lambda>t. TabId (tab_id t)) ` set (upserted s now ts td n) \<Longrightarrow>
     fst (backupLoop s now ts td n) k = td k"
proof (induction ts arbitrary: td n)
  case Nil
  then show ?case by simp
next
  case (Cons t ts)
  show ?case
  proof (cases "backupTab s now td t")
    case None
    with Cons show ?thesis by simp
  next
    case (Some r)
    with Cons.prems have ne: "k \<noteq> TabId (tab_id t)" by (auto split: if_splits)
    show ?thesis
    proof (cases "maxTabs s \<le> n + 1")
      case True
      with Some ne show ?thesis by simp
    next
      case False
      with Some Cons.prems
      have "k \<notin> (\<lambda>t. TabId (tab_id t)) ` set (upserted s now ts (td(TabId (tab_id t) \<mapsto> r)) (n + 1))"
        by simp
      then have "fst (backupLoop s now ts (td(TabId (tab_id t) \<mapsto> r)) (n + 1)) k
                   = (td(TabId (tab_id t) \<mapsto> r)) k"
        by (rule Cons.IH)
      also have "\<dots> = td k" using ne by simp
      finally show ?thesis using False Some by (simp del: fun_upd_apply)
    qed
  qed
qed

lemma upsertRecord_lastUpdated: "lastUpdated (upsertRecord s now e t) = Some now"
  by (cases e) (simp_all add: freshRecord_def refreshRecord_def)

lemma backupTab_lastUpdated: "backupTab s now td t = Some r \<Longrightarrow> lastUpdated r = Some now"
  by (auto simp: backupTab_def upsertRecord_lastUpdated split: if_splits)

lemma loop_keeps_stamp:
  "td k = Some r \<Longrightarrow> lastUpdated r = Some now \<Longrightarrow>
     \<exists>r'. fst (backupLoop s now ts td n) k = Some r' \<and> lastUpdated r' = Some now"
proof (induction ts arbitrary: td n r)
  case Nil
  then show ?case by simp
next
  case (Cons t ts)
  show ?case
  proof (cases "backupTab s now td t")
    case None
    with Cons show ?thesis by simp
  next
    case (Some u)
    then have st: "lastUpdated u = Some now" by (rule backupTab_lastUpdated)
    obtain r2 where r2: "(td(TabId (tab_id t) \<mapsto> u)) k = Some r2" "lastUpdated r2 = Some now"
      using Cons.prems st by (cases "k = TabId (tab_id t)") auto
    show ?thesis
    proof (cases "maxTabs s \<le> n + 1")
      case True
      with Some r2 show ?thesis by simp
    next
      case False
      have "\<exists>r'. fst (backupLoop s now ts (td(TabId (tab_id t) \<mapsto> u)) (n + 1)) k = Some r'
                 \<and> lastUpdated r' = Some now"
        using r2 by (rule Cons.IH)
      with False Some show ?thesis by (simp del: fun_upd_apply)
    qed
  qed
qed

lemma upserted_stamped:
  "t \<in> set (upserted s now ts td n) \<Longrightarrow>
     \<exists>r. fst (backupLoop s now ts td n) (TabId (tab_id t)) = Some r \<and> lastUpdated r = Some now"
proof (induction ts arbitrary: td n)
  case Nil
  then show ?case by simp
next
  case (Cons x ts)
  show ?case
  proof (cases "backupTab s now td x")
    case None
    with Cons show ?thesis by simp
  next
    case (Some u)
    then have st: "lastUpdated u = Some now" by (rule backupTab_lastUpdated)
    show ?thesis
    proof (cases "maxTabs s \<le> n + 1")
      case True
      with Some Cons.prems st show ?thesis by simp
    next
      case False
      show ?thesis
      proof (cases "t \<in> set (upserted s now ts (td(TabId (tab_id x) \<mapsto> u)) (n + 1))")
        case True
        then have "\<exists>r. fst (backupLoop s now ts (td(TabId (tab_id x) \<mapsto> u)) (n + 1)) (TabId (tab_id t)) = Some r
                 \<and> lastUpdated r = Some now"
          by (rule Cons.IH)
        with False Some show ?thesis by (simp del: fun_upd_apply)
      next
        case nin: False
        with Cons.prems Some False have "t = x" by simp
        have "(td(TabId (tab_id x) \<mapsto> u)) (TabId (tab_id x)) = Some u" by simp
        then have "\<exists>r. fst (backupLoop s now ts (td(TabId (tab_id x) \<mapsto> u)) (n + 1)) (TabId (tab_id x)) = Some r
                 \<and> lastUpdated r = Some now"
          using st by (rule loop_keeps_stamp)
        with False Some \<open>t = x\<close> show ?thesis by (simp del: fun_upd_apply)
      qed
    qed
  qed
qed

lemma qualifies_backupTab: "qualifies s now td t = (backupTab s now td t \<noteq> None)"
  by (simp add: qualifies_def backupTab_def)

lemma qualifies_upd:
  "tab_id t' \<noteq> tab_id t \<Longrightarrow> qualifies s now (td(TabId (tab_id t) \<mapsto> r)) t' = qualifies s now td t'"
  by (simp add: qualifies_def)

lemma upserted_distinct:
  "distinct (map tab_id ts) \<Longrightarrow> n < maxTabs s \<Longrightarrow>
     upserted s now ts td n = take (nat (maxTabs s - n)) (filter (qualifies s now td) ts)"
proof (induction ts arbitrary: td n)
  case Nil
  then show ?case by simp
next
  case (Cons t ts)
  from Cons.prems have d: "distinct (map tab_id ts)" and nt: "tab_id t \<notin> tab_id ` set ts"
    by auto
  show ?case
  proof (cases "backupTab s now td t")
    case None
    then have "\<not> qualifies s now td t" by (simp add: qualifies_backupTab)
    with None Cons.IH[OF d Cons.prems(2)] show ?thesis by simp
  next
    case (Some r)
    then have q: "qualifies s now td t" by (simp add: qualifies_backupTab)
    have same: "filter (qualifies s now (td(TabId (tab_id t) \<mapsto> r))) ts = filter (qualifies s now td) ts"
    proof (rule filter_cong[OF refl])
      fix x assume "x \<in> set ts"
      with nt have "tab_id x \<noteq> tab_id t" by (metis imageI)
      then show "qualifies s now (td(TabId (tab_id t) \<mapsto> r)) x = qualifies s now td x"
        by (rule qualifies_upd)
    qed
    show ?thesis
    proof (cases "maxTabs s \<le> n + 1")
      case True
      with Cons.prems have "nat (maxTabs s - n) = 1" by simp
      with True Some q show ?thesis by simp
    next
      case False
      then have "nat (maxTabs s - n) = Suc (nat (maxTabs s - (n + 1)))" by simp
      moreover from False have "n + 1 < maxTabs s" by simp
      moreover
      have "upserted s now ts (td(TabId (tab_id t) \<mapsto> r)) (n + 1)
              = take (nat (maxTabs s - (n + 1))) (filter (qualifies s now (td(TabId (tab_id t) \<mapsto> r))) ts)"
        using d \<open>n + 1 < maxTabs s\<close> by (rule Cons.IH)
      then have "upserted s now ts (td(TabId (tab_id t) \<mapsto> r)) (n + 1)
              = take (nat (maxTabs s - (n + 1))) (filter (qualifies s now td) ts)"
        by (simp only: same)
      ultimately show ?thesis using False Some q by (simp del: fun_upd_apply)
    qed
  qed
qed

lemma backupTab_needs_record:
  "0 < minDays s \<Longrightarrow> backupTab s now td t = Some r \<Longrightarrow> td (TabId (tab_id t)) \<noteq> None"
  by (cases "td (TabId (tab_id t))") (auto simp: backupTab_def tooYoung_def ageDays_def split: if_splits)

lemma loop_dom:
  "0 < minDays s \<Longrightarrow> dom (fst (backupLoop s now ts td n)) = dom td"
proof (induction ts arbitrary: td n)
  case Nil
  then show ?case by simp
next
  case (Cons t ts)
  show ?case
  proof (cases "backupTab s now td t")
    case None
    with Cons show ?thesis by simp
  next
    case (Some r)
    from backupTab_needs_record[OF Cons.prems Some]
    have "dom (td(TabId (tab_id t) \<mapsto> r)) = dom td" by auto
    moreover have "dom (fst (backupLoop s now ts (td(TabId (tab_id t) \<mapsto> r)) (n + 1)))
                     = dom (td(TabId (tab_id t) \<mapsto> r))"
      using Cons.prems by (rule Cons.IH)
    ultimately show ?thesis using Some
      by (simp del: fun_upd_apply dom_fun_upd)
  qed
qed

lemma loop_unseen:
  "0 < minDays s \<Longrightarrow> td k = None \<Longrightarrow> fst (backupLoop s now ts td n) k = None"
  using loop_dom[of s now ts td n] by (metis domIff)


lemma performBackup_tabData:
  "h_tabs h = Inr tabs \<Longrightarrow>
     tabData (fst (snd (performBackup h w)))
       = fst (backupLoop (currentSettings (fst w)) (h_now h) tabs (tabData (fst w)) 0)"
  by (simp add: performBackup_def saveTabData_def Let_def split: option.splits)

lemma performBackup_rejected: "h_tabs h = Inl e \<Longrightarrow> snd (performBackup h w) = w"
  by (simp add: performBackup_def)

lemma performBackup_currentSettings:
  "currentSettings (fst (snd (performBackup h w))) = currentSettings (fst w)"
  by (simp add: performBackup_def saveTabData_def Let_def split: option.splits sum.splits)

lemma performBackup_result:
  "h_tabs h = Inr tabs \<Longrightarrow> h_storageError h = None \<Longrightarrow>
   snd (backupLoop (currentSettings (fst w)) (h_now h) tabs (tabData (fst w)) 0) = c \<Longrightarrow> c \<noteq> 0 \<Longrightarrow>
     fst (performBackup h w) = \<lparr> success = True, count = Some c, message = None \<rparr>"
  by (simp add: performBackup_def saveTabData_def Let_def)

lemma backupTab_preserves:
  "td (TabId (tab_id t)) = Some e \<Longrightarrow> truthyNum (createdAt e) \<Longrightarrow> backupTab s now td t = Some r \<Longrightarrow>
     createdAt r = createdAt e \<and> domain r = domain e"
  by (auto simp: backupTab_def refreshRecord_def split: if_splits)

lemma loop_preserves_createdAt:
  "td k = Some e \<Longrightarrow> truthyNum (createdAt e) \<Longrightarrow>
     \<exists>r. fst (backupLoop s now ts td n) k = Some r \<and> createdAt r = createdAt e \<and> domain r = domain e"
proof (induction ts arbitrary: td n e)
  case Nil
  then show ?case by simp
next
  case (Cons t ts)
  show ?case
  proof (cases "backupTab s now td t")
    case None
    with Cons show ?thesis by simp
  next
    case (Some u)
    obtain e2 where e2: "(td(TabId (tab_id t) \<mapsto> u)) k = Some e2"
      and same: "createdAt e2 = createdAt e" "domain e2 = domain e"
    proof (cases "k = TabId (tab_id t)")
      case True
      with Cons.prems Some backupTab_preserves[of td t e s now u] that[of u] show ?thesis by simp
    next
      case False
      with Cons.prems that[of e] show ?thesis by simp
    qed
    from same Cons.prems have tr: "truthyNum (createdAt e2)" by simp
    show ?thesis
    proof (cases "maxTabs s \<le> n + 1")
      case True
      with Some e2 same show ?thesis by (simp del: fun_upd_apply)
    next
      case False
      have "\<exists>r. fst (backupLoop s now ts (td(TabId (tab_id t) \<mapsto> u)) (n + 1)) k = Some r
               \<and> createdAt r = createdAt e2 \<and> domain r = domain e2"
        using e2 tr by (rule Cons.IH)
      with False Some same show ?thesis by (simp del: fun_upd_apply)
    qed
  qed
qed

lemma performBackup_preserves_createdAt:
  assumes "tabData (fst w) k = Some e" "truthyNum (createdAt e)"
  shows "\<exists>r. tabData (fst (snd (performBackup h w))) k = Some r \<and> createdAt r = createdAt e \<and> domain r = domain e"
proof (cases "h_tabs h")
  case (Inl m)
  with assms show ?thesis by (simp add: performBackup_rejected)
next
  case (Inr tabs)
  have "\<exists>r. fst (backupLoop (currentSettings (fst w)) (h_now h) tabs (tabData (fst w)) 0) k = Some r
          \<and> createdAt r = createdAt e \<and> domain r = domain e"
    using assms by (rule loop_preserves_createdAt)
  then show ?thesis
    by (simp only: performBackup_tabData[OF Inr])
qed

lemma passes_preserve_createdAt:
  "tabData (fst w) k = Some e \<Longrightarrow> truthyNum (createdAt e) \<Longrightarrow>
     \<exists>r. tabData (fst (repeatedPasses hs w)) k = Some r \<and> createdAt r = createdAt e \<and> domain r = domain e"
proof (induction hs arbitrary: w e)
  case Nil
  then show ?case by simp
next
  case (Cons h hs)
  from performBackup_preserves_createdAt[OF Cons.prems, of h]
  obtain r1 where r1: "tabData (fst (snd (performBackup h w))) k = Some r1"
    and s1: "createdAt r1 = createdAt e" "domain r1 = domain e" by blast
  from s1 Cons.prems have "truthyNum (createdAt r1)" by simp
  from Cons.IH[OF r1 this] s1 show ?case by simp
qed

lemma backupTab_upsertTab:
  "backupTab s now td t = Some r \<Longrightarrow> td(TabId (tab_id t) \<mapsto> r) = upsertTab s now td t"
  by (auto simp: backupTab_def upsertTab_def split: if_splits)

lemma loop_fold:
  "fst (backupLoop s now ts td n) = foldl (upsertTab s now) td (upserted s now ts td n)"
proof (induction ts arbitrary: td n)
  case Nil
  then show ?case by simp
next
  case (Cons t ts)
  show ?case
  proof (cases "backupTab s now td t")
    case None
    with Cons.IH[of td n] show ?thesis by simp
  next
    case (Some r)
    note u = backupTab_upsertTab[OF Some]
    show ?thesis
    proof (cases "maxTabs s \<le> n + 1")
      case True
      with Some u show ?thesis by (simp del: fun_upd_apply)
    next
      case False
      have "fst (backupLoop s now ts (upsertTab s now td t) (n + 1))
              = foldl (upsertTab s now) (upsertTab s now td t)
                  (upserted s now ts (upsertTab s now td t) (n + 1))"
        by (rule Cons.IH)
      with False Some u show ?thesis by (simp del: fun_upd_apply)
    qed
  qed
qed

lemma upsertTab_same:
  "upsertTab s now td x (TabId (tab_id x)) = Some (upsertRecord s now (td (TabId (tab_id x))) x)"
  by (simp add: upsertTab_def)

lemma upsertTab_other: "k \<noteq> TabId (tab_id x) \<Longrightarrow> upsertTab s now td x k = td k"
  by (simp add: upsertTab_def)

lemma fold_other:
  "k \<notin> (\<lambda>t. TabId (tab_id t)) ` set l \<Longrightarrow> foldl (upsertTab s now) td l k = td k"
proof (induction l arbitrary: td)
  case Nil
  then show ?case by simp
next
  case (Cons x l)
  from Cons.prems have ne: "k \<noteq> TabId (tab_id x)"
    and rest: "k \<notin> (\<lambda>t. TabId (tab_id t)) ` set l" by auto
  have "foldl (upsertTab s now) (upsertTab s now td x) l k = upsertTab s now td x k"
    using rest by (rule Cons.IH)
  also have "\<dots> = td k" using ne by (rule upsertTab_other)
  finally show ?case by simp
qed

lemma fold_member:
  "distinct (map tab_id l) \<Longrightarrow> t \<in> set l \<Longrightarrow>
     foldl (upsertTab s now) td l (TabId (tab_id t))
       = Some (upsertRecord s now (td (TabId (tab_id t))) t)"
proof (induction l arbitrary: td)
  case Nil
  then show ?case by simp
next
  case (Cons x l)
  from Cons.prems(1) have d: "distinct (map tab_id l)" and nx: "tab_id x \<notin> tab_id ` set l"
    by auto
  show ?case
  proof (cases "t = x")
    case True
    from nx have "TabId (tab_id x) \<notin> (\<lambda>t. TabId (tab_id t)) ` set l" by auto
    then have "foldl (upsertTab s now) (upsertTab s now td x) l (TabId (tab_id x))
                 = upsertTab s now td x (TabId (tab_id x))"
      by (rule fold_other)
    with True show ?thesis by (simp add: upsertTab_same)
  next
    case False
    with Cons.prems(2) have tl: "t \<in> set l" by simp
    with nx have ne: "tab_id t \<noteq> tab_id x" by (metis imageI)
    have "foldl (upsertTab s now) (upsertTab s now td x) l (TabId (tab_id t))
            = Some (upsertRecord s now (upsertTab s now td x (TabId (tab_id t))) t)"
      using d tl by (rule Cons.IH)
    moreover have "upsertTab s now td x (TabId (tab_id t)) = td (TabId (tab_id t))"
      using ne by (simp add: upsertTab_other)
    ultimately show ?thesis by simp
  qed
qed

lemma fold_first_tabs:
  assumes "distinct (map tab_id tabs)" and "t \<in> set tabs"
  shows "foldl (upsertTab s now) td (take n (filter P tabs)) (TabId (tab_id t))
           = (if t \<in> set (take n (filter P tabs))
              then Some (upsertRecord s now (td (TabId (tab_id t))) t)
              else td (TabId (tab_id t)))"
proof (cases "t \<in> set (take n (filter P tabs))")
  case True
  have "distinct (map tab_id (take n (filter P tabs)))"
    using assms(1) by (simp add: take_map[symmetric] distinct_map_filter del: take_map)
  from fold_member[OF this True] True show ?thesis by simp
next
  case False
  have inj: "inj_on tab_id (set tabs)" using assms(1) by (simp add: distinct_map)
  have "TabId (tab_id t) \<notin> (\<lambda>t. TabId (tab_id t)) ` set (take n (filter P tabs))"
  proof
    assume "TabId (tab_id t) \<in> (\<lambda>t. TabId (tab_id t)) ` set (take n (filter P tabs))"
    then obtain x where x: "x \<in> set (take n (filter P tabs))" "tab_id x = tab_id t" by auto
    from x(1) have "x \<in> set tabs" by (auto dest: in_set_takeD)
    with inj assms(2) x(2) have "x = t" by (simp add: inj_on_def)
    with x(1) False show False by simp
  qed
  from fold_other[OF this] False show ?thesis by simp
qed

text \<open>
  Claim C1 as stated fails in its second half. With a negative minimum and
  \<^verbatim>\<open>maxTabs = 1\<close>, the pass meets two http tabs, upserts the first and breaks: the
  second passes the exclusion predicate and gets no record.
\<close>

theorem performBackup_all_when_negative_counterexample:
  "h_tabs (mkHost 1000 twoTabs) = Inr twoTabs \<and>
   minDays debugSettings < 0 \<and>
   mkTab 2 ''https://b.example/'' ''B'' \<in> set twoTabs \<and>
   passesExclusion debugSettings (mkTab 2 ''https://b.example/'' ''B'') \<and>
   upserted debugSettings 1000 twoTabs Map.empty 0 = [mkTab 1 ''https://a.example/'' ''A''] \<and>
   tabData (fst (snd (performBackup (mkHost 1000 twoTabs)
      (mkBackground debugSettings Map.empty, emptyBrowser)))) (TabId 2) = None"
  by (simp add: scenario_defs pass_defs debugSettings_def twoTabs_def)

text \<open>
  Claim C1, amended. In a pass with a non-negative minimum, an open tab that is
  younger than the minimum (now minus the creation time of its record, or zero when it
  has no record) is not upserted, and the map keeps what it had at the tab's
  identifier. In a pass with a negative minimum and a cap of at least one, the map after
  the pass is the map before it with the upsert applied, in the host's order, to the
  first \<^verbatim>\<open>maxTabs\<close> tabs that pass the exclusion predicate, whatever their age, and to
  no other tab: when the identifiers of the open tabs are distinct, each of those tabs
  has its upserted record and every other open tab has what the map had for it.
\<close>

theorem performBackup_minimum_age:
  assumes "h_tabs h = Inr tabs"
  shows "(0 \<le> minDays (currentSettings bg) \<and> t \<in> set tabs \<and>
          youngerThanMinimum (currentSettings bg) (h_now h) (tabData bg (TabId (tab_id t)))
          \<longrightarrow> t \<notin> set (upserted (currentSettings bg) (h_now h) tabs (tabData bg) 0) \<and>
              tabData (fst (snd (performBackup h (bg, br)))) (TabId (tab_id t))
                = tabData bg (TabId (tab_id t)))
       \<and> tabData (fst (snd (performBackup h (bg, br))))
           = foldl (upsertTab (currentSettings bg) (h_now h)) (tabData bg)
               (upserted (currentSettings bg) (h_now h) tabs (tabData bg) 0)
       \<and> (minDays (currentSettings bg) < 0 \<and> 1 \<le> maxTabs (currentSettings bg)
          \<longrightarrow> upserted (currentSettings bg) (h_now h) tabs (tabData bg) 0
                = take (nat (maxTabs (currentSettings bg)))
                    (filter (passesExclusion (currentSettings bg)) tabs) \<and>
              tabData (fst (snd (performBackup h (bg, br))))
                = foldl (upsertTab (currentSettings bg) (h_now h)) (tabData bg)
                    (take (nat (maxTabs (currentSettings bg)))
                       (filter (passesExclusion (currentSettings bg)) tabs)))
       \<and> (minDays (currentSettings bg) < 0 \<and> 1 \<le> maxTabs (currentSettings bg) \<and>
          distinct (map tab_id tabs) \<and> t \<in> set tabs
          \<longrightarrow> tabData (fst (snd (performBackup h (bg, br)))) (TabId (tab_id t))
                = (if t \<in> set (take (nat (maxTabs (currentSettings bg)))
                                 (filter (passesExclusion (currentSettings bg)) tabs))
                   then Some (upsertRecord (currentSettings bg) (h_now h)
                                (tabData bg (TabId (tab_id t))) t)
                   else tabData bg (TabId (tab_id t))))
       \<and> (t \<in> set (upserted (currentSettings bg) (h_now h) tabs (tabData bg) 0)
          \<longrightarrow> (\<exists>r. tabData (fst (snd (performBackup h (bg, br)))) (TabId (tab_id t)) = Some r
                    \<and> lastUpdated r = Some (h_now h)))"
proof -
  let ?s = "currentSettings bg" and ?now = "h_now h" and ?td = "tabData bg"
  let ?after = "tabData (fst (snd (performBackup h (bg, br))))"
  let ?u = "upserted ?s ?now tabs ?td 0"
  let ?first = "take (nat (maxTabs ?s)) (filter (passesExclusion ?s) tabs)"
  have after: "?after = fst (backupLoop ?s ?now tabs ?td 0)"
    using performBackup_tabData[OF assms, of "(bg, br)"] by simp
  have link: "?after = foldl (upsertTab ?s ?now) ?td ?u"
    by (simp only: after loop_fold)
  have young: "0 \<le> minDays ?s \<and> t \<in> set tabs \<and>
          youngerThanMinimum ?s ?now (?td (TabId (tab_id t)))
          \<longrightarrow> t \<notin> set ?u \<and> ?after (TabId (tab_id t)) = ?td (TabId (tab_id t))"
  proof
    assume a: "0 \<le> minDays ?s \<and> t \<in> set tabs \<and>
          youngerThanMinimum ?s ?now (?td (TabId (tab_id t)))"
    then have "tooYoung ?s ?now (?td (TabId (tab_id t)))"
      by (simp add: young_tooYoung)
    then have skip: "fst (backupLoop ?s ?now tabs ?td 0) (TabId (tab_id t)) = ?td (TabId (tab_id t)) \<and>
         TabId (tab_id t) \<notin> (\<lambda>t. TabId (tab_id t)) ` set ?u"
      by (rule loop_skips_young)
    then have "t \<notin> set ?u" by blast
    moreover from skip have "?after (TabId (tab_id t)) = ?td (TabId (tab_id t))"
      by (simp only: after)
    ultimately show "t \<notin> set ?u \<and> ?after (TabId (tab_id t)) = ?td (TabId (tab_id t))" ..
  qed
  have first: "?u = ?first" if n: "minDays ?s < 0 \<and> 1 \<le> maxTabs ?s"
    using upserted_negative[of ?s 0 ?now tabs ?td] n by simp
  have neg: "minDays ?s < 0 \<and> 1 \<le> maxTabs ?s \<longrightarrow>
      ?u = ?first \<and> ?after = foldl (upsertTab ?s ?now) ?td ?first"
  proof
    assume n: "minDays ?s < 0 \<and> 1 \<le> maxTabs ?s"
    from link first[OF n] have "?after = foldl (upsertTab ?s ?now) ?td ?first" by simp
    with first[OF n] show "?u = ?first \<and> ?after = foldl (upsertTab ?s ?now) ?td ?first" ..
  qed
  have entry: "minDays ?s < 0 \<and> 1 \<le> maxTabs ?s \<and> distinct (map tab_id tabs) \<and> t \<in> set tabs
      \<longrightarrow> ?after (TabId (tab_id t))
            = (if t \<in> set ?first
               then Some (upsertRecord ?s ?now (?td (TabId (tab_id t))) t)
               else ?td (TabId (tab_id t)))"
  proof
    assume n: "minDays ?s < 0 \<and> 1 \<le> maxTabs ?s \<and> distinct (map tab_id tabs) \<and> t \<in> set tabs"
    then have d: "distinct (map tab_id tabs)" and m: "t \<in> set tabs" by simp_all
    from n neg have "?after = foldl (upsertTab ?s ?now) ?td ?first" by blast
    then have "?after (TabId (tab_id t)) = foldl (upsertTab ?s ?now) ?td ?first (TabId (tab_id t))"
      by (rule arg_cong)
    also have "\<dots> = (if t \<in> set ?first
               then Some (upsertRecord ?s ?now (?td (TabId (tab_id t))) t)
               else ?td (TabId (tab_id t)))"
      using d m by (rule fold_first_tabs)
    finally show "?after (TabId (tab_id t))
            = (if t \<in> set ?first
               then Some (upsertRecord ?s ?now (?td (TabId (tab_id t))) t)
               else ?td (TabId (tab_id t)))" .
  qed
  have stamp: "t \<in> set ?u \<longrightarrow> (\<exists>r. ?after (TabId (tab_id t)) = Some r \<and> lastUpdated r = Some ?now)"
  proof
    assume "t \<in> set ?u"
    then have "\<exists>r. fst (backupLoop ?s ?now tabs ?td 0) (TabId (tab_id t)) = Some r
               \<and> lastUpdated r = Some ?now"
      by (rule upserted_stamped)
    then show "\<exists>r. ?after (TabId (tab_id t)) = Some r \<and> lastUpdated r = Some ?now"
      by (simp only: after)
  qed
  from young link neg entry stamp show ?thesis by blast
qed

text \<open>
  Claim C1, amended, on two passes: a one-day-old record under the default minimum of
  seven days is left alone; under a negative minimum with \<^verbatim>\<open>maxTabs = 1\<close> the first of
  two tabs gets its record and the second gets none.
\<close>

theorem performBackup_minimum_age_witness:
  "h_tabs (mkHost 1000000000 twoTabs) = Inr twoTabs \<and>
   0 \<le> minDays DEFAULT_SETTINGS \<and>
   mkTab 1 ''https://a.example/'' ''A'' \<in> set twoTabs \<and>
   youngerThanMinimum DEFAULT_SETTINGS 1000000000 (Some youngRecord) \<and>
   tabData (fst (snd (performBackup (mkHost 1000000000 twoTabs)
      (mkBackground DEFAULT_SETTINGS [TabId 1 \<mapsto> youngRecord], emptyBrowser)))) (TabId 1)
     = Some youngRecord \<and>
   minDays debugSettings < 0 \<and> 1 \<le> maxTabs debugSettings \<and>
   distinct (map tab_id twoTabs) \<and>
   mkTab 2 ''https://b.example/'' ''B'' \<in> set twoTabs \<and>
   upserted debugSettings 1000 twoTabs Map.empty 0 = [mkTab 1 ''https://a.example/'' ''A''] \<and>
   tabData (fst (snd (performBackup (mkHost 1000 twoTabs)
      (mkBackground debugSettings Map.empty, emptyBrowser)))) (TabId 1)
     = Some (upsertRecord debugSettings 1000 None (mkTab 1 ''https://a.example/'' ''A'')) \<and>
   tabData (fst (snd (performBackup (mkHost 1000 twoTabs)
      (mkBackground debugSettings Map.empty, emptyBrowser)))) (TabId 2) = None \<and>
   (\<exists>r. tabData (fst (snd (performBackup (mkHost 1000 twoTabs)
      (mkBackground debugSettings Map.empty, emptyBrowser)))) (TabId 1) = Some r
        \<and> lastUpdated r = Some 1000)"
proof -
  let ?t1 = "mkTab 1 ''https://a.example/'' ''A''" and ?t2 = "mkTab 2 ''https://b.example/'' ''B''"
  let ?after = "tabData (fst (snd (performBackup (mkHost 1000 twoTabs)
      (mkBackground debugSettings Map.empty, emptyBrowser))))"
  have h1: "h_tabs (mkHost 1000000000 twoTabs) = Inr twoTabs" by (simp add: mkHost_def)
  have h2: "h_tabs (mkHost 1000 twoTabs) = Inr twoTabs" by (simp add: mkHost_def)
  have y: "youngerThanMinimum DEFAULT_SETTINGS 1000000000 (Some youngRecord)"
    by (simp add: youngRecord_def mkRecord_def ageDays_def DEFAULT_SETTINGS_def)
  have m: "0 \<le> minDays DEFAULT_SETTINGS" "minDays debugSettings < 0" "1 \<le> maxTabs debugSettings"
    by (simp_all add: DEFAULT_SETTINGS_def debugSettings_def)
  have d: "distinct (map tab_id twoTabs)" by (simp add: twoTabs_def mkTab_def)
  have f: "take (nat (maxTabs debugSettings)) (filter (passesExclusion debugSettings) twoTabs) = [?t1]"
    by (simp add: scenario_defs pass_defs debugSettings_def twoTabs_def)
  have mem: "?t1 \<in> set twoTabs" "?t2 \<in> set twoTabs" by (simp_all add: twoTabs_def)
  have ids: "tab_id ?t1 = 1" "tab_id ?t2 = 2" "?t2 \<noteq> ?t1" by (simp_all add: mkTab_def)
  have cs: "currentSettings (mkBackground DEFAULT_SETTINGS [TabId 1 \<mapsto> youngRecord]) = DEFAULT_SETTINGS"
    "tabData (mkBackground DEFAULT_SETTINGS [TabId 1 \<mapsto> youngRecord]) = [TabId 1 \<mapsto> youngRecord]"
    "currentSettings (mkBackground debugSettings Map.empty) = debugSettings"
    "tabData (mkBackground debugSettings Map.empty) = Map.empty"
    "h_now (mkHost 1000000000 twoTabs) = 1000000000" "h_now (mkHost 1000 twoTabs) = 1000"
    by (simp_all add: mkBackground_def mkHost_def)
  note a = performBackup_minimum_age[OF h1,
      of "mkBackground DEFAULT_SETTINGS [TabId 1 \<mapsto> youngRecord]" ?t1 emptyBrowser,
      unfolded cs ids]
  note b1 = performBackup_minimum_age[OF h2,
      of "mkBackground debugSettings Map.empty" ?t1 emptyBrowser, unfolded cs ids f]
  note b2 = performBackup_minimum_age[OF h2,
      of "mkBackground debugSettings Map.empty" ?t2 emptyBrowser, unfolded cs ids f]
  from a[THEN conjunct1] m(1) y mem(1)
  have c1: "tabData (fst (snd (performBackup (mkHost 1000000000 twoTabs)
      (mkBackground DEFAULT_SETTINGS [TabId 1 \<mapsto> youngRecord], emptyBrowser)))) (TabId 1)
     = Some youngRecord" by simp
  from b1[THEN conjunct2, THEN conjunct2, THEN conjunct1] m(2,3)
  have u: "upserted debugSettings 1000 twoTabs Map.empty 0 = [?t1]" by blast
  from b1[THEN conjunct2, THEN conjunct2, THEN conjunct2, THEN conjunct1] m(2,3) d mem(1)
  have e1: "?after (TabId 1) = Some (upsertRecord debugSettings 1000 None ?t1)" by simp
  from b2[THEN conjunct2, THEN conjunct2, THEN conjunct2, THEN conjunct1] m(2,3) d mem(2) ids(3)
  have e2: "?after (TabId 2) = None" by simp
  from b1[THEN conjunct2, THEN conjunct2, THEN conjunct2, THEN conjunct2] u
  have c2: "\<exists>r. ?after (TabId 1) = Some r \<and> lastUpdated r = Some 1000" by simp
  from h1 m y mem d u c1 e1 e2 c2 show ?thesis by blast
qed

text \<open>
  Claim C3 as stated fails for a cap below one: the cap is compared after the count
  has been raised, so with \<^verbatim>\<open>maxTabs = 0\<close> and two qualifying tabs the pass performs one
  upsert and returns the count 1.
\<close>

theorem performBackup_cap_zero_counterexample:
  "h_tabs (mkHost 1000 twoTabs) = Inr twoTabs \<and>
   maxTabs zeroCap = 0 \<and>
   length (filter (qualifies zeroCap 1000 Map.empty) twoTabs) = 2 \<and>
   fst (performBackup (mkHost 1000 twoTabs) (mkBackground zeroCap Map.empty, emptyBrowser))
     = \<lparr> success = True, count = Some 1, message = None \<rparr> \<and>
   map_option url (tabData (fst (snd (performBackup (mkHost 1000 twoTabs)
      (mkBackground zeroCap Map.empty, emptyBrowser)))) (TabId 1)) = Some ''https://a.example/''"
  by (simp add: qualifies_def scenario_defs pass_defs zeroCap_def twoTabs_def)

text \<open>
  Claim C3, amended. When the identifiers of the open tabs are distinct (as the host's
  are), the cap is at least one (the range the options page accepts), and more open
  tabs satisfy the upsert predicate than the cap allows, the pass upserts exactly the
  first \<^verbatim>\<open>maxTabs\<close> of them and stops: the map after the pass is the map before it with
  the upsert applied to those tabs in order, each of them has its upserted record,
  every other open tab has what the map had for it, \<^verbatim>\<open>backupCount\<close> ends at
  \<^verbatim>\<open>maxTabs\<close>, and when the store accepts the write that count is returned and that map
  is what the store holds.
\<close>

theorem performBackup_stops_at_maxTabs:
  assumes "h_tabs h = Inr tabs"
    and "distinct (map tab_id tabs)"
    and "1 \<le> maxTabs (currentSettings bg)"
    and "maxTabs (currentSettings bg)
           < int (length (filter (qualifies (currentSettings bg) (h_now h) (tabData bg)) tabs))"
  shows "upserted (currentSettings bg) (h_now h) tabs (tabData bg) 0
           = take (nat (maxTabs (currentSettings bg)))
               (filter (qualifies (currentSettings bg) (h_now h) (tabData bg)) tabs)
       \<and> int (length (upserted (currentSettings bg) (h_now h) tabs (tabData bg) 0))
           = maxTabs (currentSettings bg)
       \<and> snd (backupLoop (currentSettings bg) (h_now h) tabs (tabData bg) 0)
           = maxTabs (currentSettings bg)
       \<and> tabData (fst (snd (performBackup h (bg, br))))
           = foldl (upsertTab (currentSettings bg) (h_now h)) (tabData bg)
               (take (nat (maxTabs (currentSettings bg)))
                  (filter (qualifies (currentSettings bg) (h_now h) (tabData bg)) tabs))
       \<and> (\<forall>t\<in>set tabs.
            tabData (fst (snd (performBackup h (bg, br)))) (TabId (tab_id t))
              = (if t \<in> set (take (nat (maxTabs (currentSettings bg)))
                               (filter (qualifies (currentSettings bg) (h_now h) (tabData bg)) tabs))
                 then Some (upsertRecord (currentSettings bg) (h_now h)
                              (tabData bg (TabId (tab_id t))) t)
                 else tabData bg (TabId (tab_id t))))
       \<and> (h_storageError h = None \<longrightarrow>
            fst (performBackup h (bg, br))
              = \<lparr> success = True, count = Some (maxTabs (currentSettings bg)), message = None \<rparr> \<and>
            st_tabData (snd (snd (performBackup h (bg, br))))
              = Some (tabData (fst (snd (performBackup h (bg, br))))))
       \<and> (\<forall>t\<in>set tabs.
            t \<notin> set (upserted (currentSettings bg) (h_now h) tabs (tabData bg) 0) \<longrightarrow>
            tabData (fst (snd (performBackup h (bg, br)))) (TabId (tab_id t))
              = tabData bg (TabId (tab_id t)))"
proof -
  let ?s = "currentSettings bg" and ?now = "h_now h" and ?td = "tabData bg"
  let ?after = "tabData (fst (snd (performBackup h (bg, br))))"
  let ?u = "upserted ?s ?now tabs ?td 0"
  let ?first = "take (nat (maxTabs ?s)) (filter (qualifies ?s ?now ?td) tabs)"
  have after: "?after = fst (backupLoop ?s ?now tabs ?td 0)"
    using performBackup_tabData[OF assms(1), of "(bg, br)"] by simp
  have u: "?u = ?first"
    using upserted_distinct[OF assms(2), of 0 ?s ?now ?td] assms(3) by simp
  have len: "int (length ?u) = maxTabs ?s"
    using assms(3,4) by (simp add: u)
  have cnt: "snd (backupLoop ?s ?now tabs ?td 0) = maxTabs ?s"
    using len by (simp add: backupLoop_count)
  have link: "?after = foldl (upsertTab ?s ?now) ?td ?first"
    by (simp only: after loop_fold u)
  have entry: "\<forall>t\<in>set tabs. ?after (TabId (tab_id t))
      = (if t \<in> set ?first then Some (upsertRecord ?s ?now (?td (TabId (tab_id t))) t)
         else ?td (TabId (tab_id t)))"
  proof
    fix t assume m: "t \<in> set tabs"
    from link have "?after (TabId (tab_id t)) = foldl (upsertTab ?s ?now) ?td ?first (TabId (tab_id t))"
      by (rule arg_cong)
    also have "\<dots> = (if t \<in> set ?first then Some (upsertRecord ?s ?now (?td (TabId (tab_id t))) t)
         else ?td (TabId (tab_id t)))"
      using assms(2) m by (rule fold_first_tabs)
    finally show "?after (TabId (tab_id t))
      = (if t \<in> set ?first then Some (upsertRecord ?s ?now (?td (TabId (tab_id t))) t)
         else ?td (TabId (tab_id t)))" .
  qed
  have res: "h_storageError h = None \<longrightarrow>
            fst (performBackup h (bg, br))
              = \<lparr> success = True, count = Some (maxTabs ?s), message = None \<rparr> \<and>
            st_tabData (snd (snd (performBackup h (bg, br)))) = Some ?after"
  proof
    assume ok: "h_storageError h = None"
    have "maxTabs ?s \<noteq> 0" using assms(3) by simp
    with performBackup_result[OF assms(1) ok, of "(bg, br)" "maxTabs ?s"] cnt
    have r: "fst (performBackup h (bg, br))
              = \<lparr> success = True, count = Some (maxTabs ?s), message = None \<rparr>"
      by simp
    have "st_tabData (snd (snd (performBackup h (bg, br)))) = Some ?after"
      using assms(1) ok by (simp add: performBackup_def saveTabData_def Let_def)
    with r show "fst (performBackup h (bg, br))
              = \<lparr> success = True, count = Some (maxTabs ?s), message = None \<rparr> \<and>
            st_tabData (snd (snd (performBackup h (bg, br)))) = Some ?after" ..
  qed
  have rest: "\<forall>t\<in>set tabs. t \<notin> set ?u \<longrightarrow> ?after (TabId (tab_id t)) = ?td (TabId (tab_id t))"
    using entry by (simp add: u)
  from u len cnt link entry res rest show ?thesis by blast
qed

text \<open>
  Claim C3, amended, on two qualifying tabs and a cap of one: one upsert, a record for
  the first tab, none for the second, and a returned count of 1.
\<close>

theorem performBackup_stops_at_maxTabs_witness:
  "h_tabs (mkHost 1000 twoTabs) = Inr twoTabs \<and>
   distinct (map tab_id twoTabs) \<and>
   1 \<le> maxTabs debugSettings \<and>
   maxTabs debugSettings < int (length (filter (qualifies debugSettings 1000 Map.empty) twoTabs)) \<and>
   upserted debugSettings 1000 twoTabs Map.empty 0 = [mkTab 1 ''https://a.example/'' ''A''] \<and>
   fst (performBackup (mkHost 1000 twoTabs) (mkBackground debugSettings Map.empty, emptyBrowser))
     = \<lparr> success = True, count = Some 1, message = None \<rparr> \<and>
   tabData (fst (snd (performBackup (mkHost 1000 twoTabs)
      (mkBackground debugSettings Map.empty, emptyBrowser)))) (TabId 1)
     = Some (upsertRecord debugSettings 1000 None (mkTab 1 ''https://a.example/'' ''A'')) \<and>
   tabData (fst (snd (performBackup (mkHost 1000 twoTabs)
      (mkBackground debugSettings Map.empty, emptyBrowser)))) (TabId 2) = None"
proof -
  let ?t1 = "mkTab 1 ''https://a.example/'' ''A''" and ?t2 = "mkTab 2 ''https://b.example/'' ''B''"
  let ?after = "tabData (fst (snd (performBackup (mkHost 1000 twoTabs)
      (mkBackground debugSettings Map.empty, emptyBrowser))))"
  have h: "h_tabs (mkHost 1000 twoTabs) = Inr twoTabs" by (simp add: mkHost_def)
  have d: "distinct (map tab_id twoTabs)" by (simp add: twoTabs_def mkTab_def)
  have cs: "currentSettings (mkBackground debugSettings Map.empty) = debugSettings"
    "tabData (mkBackground debugSettings Map.empty) = Map.empty"
    "h_now (mkHost 1000 twoTabs) = 1000" "h_storageError (mkHost 1000 twoTabs) = None"
    by (simp_all add: mkBackground_def mkHost_def)
  have mt: "maxTabs debugSettings = 1" by (simp add: debugSettings_def DEFAULT_SETTINGS_def)
  have m: "1 \<le> maxTabs (currentSettings (mkBackground debugSettings Map.empty))"
    by (simp add: cs mt)
  have f: "filter (qualifies debugSettings 1000 Map.empty) twoTabs = twoTabs"
    by (simp add: qualifies_def scenario_defs pass_defs debugSettings_def twoTabs_def)
  have q: "maxTabs (currentSettings (mkBackground debugSettings Map.empty))
      < int (length (filter (qualifies (currentSettings (mkBackground debugSettings Map.empty))
           (h_now (mkHost 1000 twoTabs)) (tabData (mkBackground debugSettings Map.empty))) twoTabs))"
    by (simp add: cs f mt) (simp add: twoTabs_def)
  have first: "take (nat (maxTabs debugSettings)) (filter (qualifies debugSettings 1000 Map.empty) twoTabs)
      = [?t1]"
    by (simp add: f mt) (simp add: twoTabs_def)
  note w = performBackup_stops_at_maxTabs[OF h d m q, of emptyBrowser, unfolded cs first]
  have mem: "?t1 \<in> set twoTabs" "?t2 \<in> set twoTabs" by (simp_all add: twoTabs_def)
  have ids: "tab_id ?t1 = 1" "tab_id ?t2 = 2" "?t2 \<noteq> ?t1" by (simp_all add: mkTab_def)
  from w have u: "upserted debugSettings 1000 twoTabs Map.empty 0 = [?t1]" by blast
  from w have r: "fst (performBackup (mkHost 1000 twoTabs) (mkBackground debugSettings Map.empty, emptyBrowser))
     = \<lparr> success = True, count = Some 1, message = None \<rparr>"
    by (simp add: mt)
  from w have ent: "\<forall>t\<in>set twoTabs. ?after (TabId (tab_id t))
      = (if t \<in> set [?t1] then Some (upsertRecord debugSettings 1000 (Map.empty (TabId (tab_id t))) t)
         else Map.empty (TabId (tab_id t)))"
    by blast
  from ent mem(1) have e1: "?after (TabId 1) = Some (upsertRecord debugSettings 1000 None ?t1)"
    using ids by fastforce
  from ent mem(2) have e2: "?after (TabId 2) = None"
    using ids by fastforce
  have q': "maxTabs debugSettings < int (length (filter (qualifies debugSettings 1000 Map.empty) twoTabs))"
    using q by (simp only: cs)
  from h d m q' u r e1 e2 show ?thesis by (simp add: cs)
qed

text \<open>
  Claim C9. In a pass with a minimum above zero, an open tab without a record is
  skipped and still has no record afterwards, and the key set of the map is the same
  after the pass as before.
\<close>

theorem performBackup_positive_minimum:
  assumes "h_tabs h = Inr tabs" and "0 < minDays (currentSettings bg)"
  shows "dom (tabData (fst (snd (performBackup h (bg, br))))) = dom (tabData bg)
       \<and> (t \<in> set tabs \<and> tabData bg (TabId (tab_id t)) = None \<longrightarrow>
            t \<notin> set (upserted (currentSettings bg) (h_now h) tabs (tabData bg) 0) \<and>
            tabData (fst (snd (performBackup h (bg, br)))) (TabId (tab_id t)) = None)"
proof (intro conjI impI)
  show "dom (tabData (fst (snd (performBackup h (bg, br))))) = dom (tabData bg)"
    using loop_dom[OF assms(2)] by (simp add: performBackup_tabData[OF assms(1)])
next
  assume a: "t \<in> set tabs \<and> tabData bg (TabId (tab_id t)) = None"
  then have "tooYoung (currentSettings bg) (h_now h) (tabData bg (TabId (tab_id t)))"
    using assms(2) by (simp add: tooYoung_def ageDays_def)
  then have "fst (backupLoop (currentSettings bg) (h_now h) tabs (tabData bg) 0) (TabId (tab_id t))
            = tabData bg (TabId (tab_id t)) \<and>
         TabId (tab_id t) \<notin> (\<lambda>t. TabId (tab_id t)) `
            set (upserted (currentSettings bg) (h_now h) tabs (tabData bg) 0)"
    by (rule loop_skips_young)
  then show "t \<notin> set (upserted (currentSettings bg) (h_now h) tabs (tabData bg) 0)" by blast
  show "tabData (fst (snd (performBackup h (bg, br)))) (TabId (tab_id t)) = None"
    using a loop_unseen[OF assms(2)] by (simp add: performBackup_tabData[OF assms(1)])
qed

text \<open>
  Claim C9 under the default minimum of seven days: the tab with an old record keeps
  its key, the unseen tab gets none.
\<close>

theorem performBackup_positive_minimum_witness:
  "h_tabs (mkHost 1000000000 twoTabs) = Inr twoTabs \<and>
   0 < minDays DEFAULT_SETTINGS \<and>
   mkTab 2 ''https://b.example/'' ''B'' \<in> set twoTabs \<and>
   dom (tabData (fst (snd (performBackup (mkHost 1000000000 twoTabs)
      (mkBackground DEFAULT_SETTINGS [TabId 1 \<mapsto> oldRecord], emptyBrowser))))) = {TabId 1} \<and>
   tabData (fst (snd (performBackup (mkHost 1000000000 twoTabs)
      (mkBackground DEFAULT_SETTINGS [TabId 1 \<mapsto> oldRecord], emptyBrowser)))) (TabId 2) = None"
proof -
  have h: "h_tabs (mkHost 1000000000 twoTabs) = Inr twoTabs" by (simp add: mkHost_def)
  have m: "0 < minDays (currentSettings (mkBackground DEFAULT_SETTINGS [TabId 1 \<mapsto> oldRecord]))"
    by (simp add: mkBackground_def DEFAULT_SETTINGS_def)
  have n2: "mkTab 2 ''https://b.example/'' ''B'' \<in> set twoTabs" by (simp add: twoTabs_def)
  note w = performBackup_positive_minimum[OF h m, of emptyBrowser "mkTab 2 ''https://b.example/'' ''B''"]
  from w n2 have "dom (tabData (fst (snd (performBackup (mkHost 1000000000 twoTabs)
      (mkBackground DEFAULT_SETTINGS [TabId 1 \<mapsto> oldRecord], emptyBrowser))))) = {TabId 1}"
    by (simp add: mkBackground_def)
  moreover from w n2 have "tabData (fst (snd (performBackup (mkHost 1000000000 twoTabs)
      (mkBackground DEFAULT_SETTINGS [TabId 1 \<mapsto> oldRecord], emptyBrowser)))) (TabId 2) = None"
    by (simp add: mkBackground_def mkTab_def)
  ultimately show ?thesis using h m n2 by (simp add: mkBackground_def)
qed

text \<open>
  Claim C2 as stated fails where it says that only lastUpdated, title and favicon
  change: the upsert also assigns \<^verbatim>\<open>url: tab.url\<close>, so the record of a tab that has moved
  to another page changes its url.
\<close>

theorem performBackup_only_three_fields_counterexample:
  "h_tabs (mkHost 1000000000 [movedTab]) = Inr [movedTab] \<and>
   map_option url (tabData (mkBackground DEFAULT_SETTINGS [TabId 1 \<mapsto> oldRecord]) (TabId 1))
     = Some ''https://a.example/'' \<and>
   map_option url (tabData (fst (snd (performBackup (mkHost 1000000000 [movedTab])
      (mkBackground DEFAULT_SETTINGS [TabId 1 \<mapsto> oldRecord], emptyBrowser)))) (TabId 1))
     = Some ''https://b.example/''"
  by (simp add: scenario_defs pass_defs movedTab_def oldRecord_def)

text \<open>
  Claim C2, amended. A record with a creation time (a truthy \<^verbatim>\<open>createdAt\<close>) is still
  there after any number of passes, with the same \<^verbatim>\<open>createdAt\<close>; of its properties only
  title, url, lastUpdated and favIconUrl can have changed.
\<close>

theorem repeatedPasses_preserve_createdAt:
  assumes "tabData bg k = Some e" and "truthyNum (createdAt e)"
  shows "\<exists>r. tabData (fst (repeatedPasses hs (bg, br))) k = Some r \<and>
             createdAt r = createdAt e \<and> domain r = domain e"
  using passes_preserve_createdAt[of "(bg, br)" k e hs] assms by simp

text \<open>
  Claim C2, amended, on two passes over a record created at 100000000.
\<close>

theorem repeatedPasses_preserve_createdAt_witness:
  "tabData (mkBackground DEFAULT_SETTINGS [TabId 1 \<mapsto> oldRecord]) (TabId 1) = Some oldRecord \<and>
   truthyNum (createdAt oldRecord) \<and>
   (\<exists>r. tabData (fst (repeatedPasses [mkHost 1000000000 [movedTab], mkHost 2000000000 twoTabs]
            (mkBackground DEFAULT_SETTINGS [TabId 1 \<mapsto> oldRecord], emptyBrowser))) (TabId 1) = Some r \<and>
        createdAt r = Some 100000000 \<and> domain r = None)"
proof -
  have a: "tabData (mkBackground DEFAULT_SETTINGS [TabId 1 \<mapsto> oldRecord]) (TabId 1) = Some oldRecord"
    by (simp add: mkBackground_def)
  have b: "truthyNum (createdAt oldRecord)" by (simp add: oldRecord_def mkRecord_def)
  from repeatedPasses_preserve_createdAt[OF a b,
      of "[mkHost 1000000000 [movedTab], mkHost 2000000000 twoTabs]" emptyBrowser] a b
  show ?thesis by (simp add: oldRecord_def mkRecord_def)
qed

text \<open>
  Claim C7 as stated fails in its bound. With \<^verbatim>\<open>maxTitleLength = 5\<close> the title
  \<^verbatim>\<open>abcdefgh\<close> is stored as \<^verbatim>\<open>abcde...\<close>, of length 8, by the pass and by the tracker.
\<close>

theorem stored_title_within_maximum_counterexample:
  "maxTitleLength shortTitles = 5 \<and>
   tab_title longTitleTab = Some ''abcdefgh'' \<and>
   map_option title (tabData (fst (snd (performBackup (mkHost 1000 [longTitleTab])
      (mkBackground shortTitles Map.empty, emptyBrowser)))) (TabId 1)) = Some ''abcde...'' \<and>
   map_option (length \<circ> title) (tabData (fst (snd (performBackup (mkHost 1000 [longTitleTab])
      (mkBackground shortTitles Map.empty, emptyBrowser)))) (TabId 1)) = Some 8 \<and>
   map_option (length \<circ> title) (tabData (fst (handleTabUpdate (mkHost 1000 []) 1 (Some ''complete'')
      (longTitleTab \<lparr> tab_createdAt := Some 10 \<rparr>)
      (mkBackground shortTitles Map.empty, emptyBrowser))) (TabId 1)) = Some 8"
  by (simp add: scenario_defs pass_defs shortTitles_def longTitleTab_def handleTabUpdate_def)

lemma backupTab_title:
  "backupTab s now td t = Some r \<Longrightarrow>
     title r = truncateTitle (maxTitleLength s) (orStr (tab_title t) [])"
  by (cases "td (TabId (tab_id t))")
     (auto simp: backupTab_def freshRecord_def refreshRecord_def split: if_splits)

lemma loop_titles:
  "fst (backupLoop s now ts td n) k = td k \<or>
   (\<exists>t\<in>set ts. TabId (tab_id t) = k \<and>
      map_option title (fst (backupLoop s now ts td n) k)
        = Some (truncateTitle (maxTitleLength s) (orStr (tab_title t) [])))"
proof (induction ts arbitrary: td n)
  case Nil
  then show ?case by simp
next
  case (Cons x ts)
  show ?case
  proof (cases "backupTab s now td x")
    case None
    with Cons[of td n] show ?thesis by auto
  next
    case (Some r)
    note ti = backupTab_title[OF Some]
    show ?thesis
    proof (cases "maxTabs s \<le> n + 1")
      case True
      with Some ti show ?thesis by auto
    next
      case False
      have ih: "fst (backupLoop s now ts (td(TabId (tab_id x) \<mapsto> r)) (n + 1)) k
                  = (td(TabId (tab_id x) \<mapsto> r)) k \<or>
         (\<exists>t\<in>set ts. TabId (tab_id t) = k \<and>
            map_option title (fst (backupLoop s now ts (td(TabId (tab_id x) \<mapsto> r)) (n + 1)) k)
              = Some (truncateTitle (maxTitleLength s) (orStr (tab_title t) [])))"
        by (rule Cons.IH)
      have eq: "backupLoop s now (x # ts) td n = backupLoop s now ts (td(TabId (tab_id x) \<mapsto> r)) (n + 1)"
        using False Some by simp
      from ih show ?thesis
      proof
        assume same: "fst (backupLoop s now ts (td(TabId (tab_id x) \<mapsto> r)) (n + 1)) k
                  = (td(TabId (tab_id x) \<mapsto> r)) k"
        show ?thesis
        proof (cases "k = TabId (tab_id x)")
          case True
          with same ti have "map_option title (fst (backupLoop s now (x # ts) td n) k)
              = Some (truncateTitle (maxTitleLength s) (orStr (tab_title x) []))"
            by (simp add: eq del: backupLoop.simps)
          with True show ?thesis by auto
        next
          case False
          with same have "fst (backupLoop s now (x # ts) td n) k = td k"
            by (simp add: eq del: backupLoop.simps)
          then show ?thesis ..
        qed
      next
        assume "\<exists>t\<in>set ts. TabId (tab_id t) = k \<and>
            map_option title (fst (backupLoop s now ts (td(TabId (tab_id x) \<mapsto> r)) (n + 1)) k)
              = Some (truncateTitle (maxTitleLength s) (orStr (tab_title t) []))"
        then show ?thesis by (auto simp: eq simp del: backupLoop.simps)
      qed
    qed
  qed
qed

lemma handleTabUpdate_title:
  "handleTabUpdate h i st t w = w \<or>
   map_option title (tabData (fst (handleTabUpdate h i st t w)) (TabId i))
     = Some (truncateTitle (maxTitleLength (currentSettings (fst w))) (orStr (tab_title t) []))"
  by (simp add: handleTabUpdate_def saveTabData_def Let_def split: option.splits)

text \<open>
  Claim C7, amended. A title longer than a non-negative \<^verbatim>\<open>maxTitleLength\<close> is stored
  as its first \<^verbatim>\<open>maxTitleLength\<close> characters followed by the marker \<^verbatim>\<open>...\<close>, so the
  stored title has \<^verbatim>\<open>maxTitleLength + 3\<close> characters; a title at or under the limit is
  stored unchanged. This is the title of every record the tracker writes, and of every
  record a pass changes.
\<close>

theorem stored_title_truncated:
  "(0 \<le> m \<and> m < int (length x) \<longrightarrow>
      truncateTitle m x = take (nat m) x @ ''...'' \<and> int (length (truncateTitle m x)) = m + 3)
   \<and> (int (length x) \<le> m \<longrightarrow> truncateTitle m x = x)
   \<and> (handleTabUpdate h i st t (bg, br) = (bg, br) \<or>
        map_option title (tabData (fst (handleTabUpdate h i st t (bg, br))) (TabId i))
          = Some (truncateTitle (maxTitleLength (currentSettings bg)) (orStr (tab_title t) [])))
   \<and> (h_tabs h = Inr tabs \<longrightarrow>
        tabData (fst (snd (performBackup h (bg, br)))) k = tabData bg k \<or>
        (\<exists>u\<in>set tabs. TabId (tab_id u) = k \<and>
           map_option title (tabData (fst (snd (performBackup h (bg, br)))) k)
             = Some (truncateTitle (maxTitleLength (currentSettings bg)) (orStr (tab_title u) []))))"
proof -
  have long: "0 \<le> m \<and> m < int (length x) \<longrightarrow>
      truncateTitle m x = take (nat m) x @ ''...'' \<and> int (length (truncateTitle m x)) = m + 3"
  proof
    assume a: "0 \<le> m \<and> m < int (length x)"
    then have "nat m \<le> length x" by linarith
    with a show "truncateTitle m x = take (nat m) x @ ''...'' \<and> int (length (truncateTitle m x)) = m + 3"
      by (simp add: truncateTitle_def)
  qed
  have short: "int (length x) \<le> m \<longrightarrow> truncateTitle m x = x"
    by (simp add: truncateTitle_def)
  have tracker: "handleTabUpdate h i st t (bg, br) = (bg, br) \<or>
        map_option title (tabData (fst (handleTabUpdate h i st t (bg, br))) (TabId i))
          = Some (truncateTitle (maxTitleLength (currentSettings bg)) (orStr (tab_title t) []))"
    using handleTabUpdate_title[of h i st t "(bg, br)"] by simp
  have pass: "h_tabs h = Inr tabs \<longrightarrow>
        tabData (fst (snd (performBackup h (bg, br)))) k = tabData bg k \<or>
        (\<exists>u\<in>set tabs. TabId (tab_id u) = k \<and>
           map_option title (tabData (fst (snd (performBackup h (bg, br)))) k)
             = Some (truncateTitle (maxTitleLength (currentSettings bg)) (orStr (tab_title u) [])))"
  proof
    assume q: "h_tabs h = Inr tabs"
    show "tabData (fst (snd (performBackup h (bg, br)))) k = tabData bg k \<or>
        (\<exists>u\<in>set tabs. TabId (tab_id u) = k \<and>
           map_option title (tabData (fst (snd (performBackup h (bg, br)))) k)
             = Some (truncateTitle (maxTitleLength (currentSettings bg)) (orStr (tab_title u) [])))"
      using loop_titles[of "currentSettings bg" "h_now h" tabs "tabData bg" 0 k]
      by (simp add: performBackup_tabData[OF q])
  qed
  from long short tracker pass show ?thesis by blast
qed

text \<open>
  Claim C7, amended, on the titles \<^verbatim>\<open>abcdefgh\<close> and \<^verbatim>\<open>abc\<close> with a maximum of 5.
\<close>

theorem stored_title_truncated_witness:
  "(0::int) \<le> 5 \<and> 5 < int (length ''abcdefgh'') \<and>
   truncateTitle 5 ''abcdefgh'' = ''abcde...'' \<and>
   int (length ''abc'') \<le> 5 \<and> truncateTitle 5 ''abc'' = ''abc'' \<and>
   h_tabs (mkHost 1000 [longTitleTab]) = Inr [longTitleTab] \<and>
   map_option title (tabData (fst (snd (performBackup (mkHost 1000 [longTitleTab])
      (mkBackground shortTitles Map.empty, emptyBrowser)))) (TabId 1))
     = Some (truncateTitle 5 ''abcdefgh'')"
proof -
  let ?after = "tabData (fst (snd (performBackup (mkHost 1000 [longTitleTab])
      (mkBackground shortTitles Map.empty, emptyBrowser)))) (TabId 1)"
  have h: "h_tabs (mkHost 1000 [longTitleTab]) = Inr [longTitleTab]" by (simp add: mkHost_def)
  note a = stored_title_truncated[of 5 "''abcdefgh''" "mkHost 1000 [longTitleTab]" 1 None longTitleTab
      "mkBackground shortTitles Map.empty" emptyBrowser "[longTitleTab]" "TabId 1"]
  note b = stored_title_truncated[of 5 "''abc''" "mkHost 1000 [longTitleTab]" 1 None longTitleTab
      "mkBackground shortTitles Map.empty" emptyBrowser "[longTitleTab]" "TabId 1"]
  have ne: "?after \<noteq> tabData (mkBackground shortTitles Map.empty) (TabId 1)"
    by (simp add: scenario_defs pass_defs shortTitles_def longTitleTab_def)
  have l1: "(0::int) \<le> 5 \<and> 5 < int (length ''abcdefgh'')" by simp
  have l2: "int (length ''abc'') \<le> 5" by simp
  from a l1 have "truncateTitle 5 ''abcdefgh'' = take (nat 5) ''abcdefgh'' @ ''...''" by blast
  then have t1: "truncateTitle 5 ''abcdefgh'' = ''abcde...''" by simp
  from b l2 have t2: "truncateTitle 5 ''abc'' = ''abc''" by blast
  from a h ne have "\<exists>u\<in>set [longTitleTab]. TabId (tab_id u) = TabId 1 \<and>
           map_option title ?after
             = Some (truncateTitle (maxTitleLength (currentSettings (mkBackground shortTitles Map.empty)))
                  (orStr (tab_title u) []))"
    by blast
  then have "map_option title ?after
             = Some (truncateTitle (maxTitleLength (currentSettings (mkBackground shortTitles Map.empty)))
                  (orStr (tab_title longTitleTab) []))"
    by simp
  moreover have "maxTitleLength (currentSettings (mkBackground shortTitles Map.empty)) = 5"
    by (simp add: mkBackground_def shortTitles_def)
  moreover have "orStr (tab_title longTitleTab) [] = ''abcdefgh''"
    by (simp add: longTitleTab_def mkTab_def)
  ultimately have t3: "map_option title ?after = Some (truncateTitle 5 ''abcdefgh'')"
    by (simp only:)
  from l1 l2 h t1 t2 t3 show ?thesis by blast
qed

section \<open>Properties of the alarm handler\<close>

lemma handleAlarm_currentSettings:
  "currentSettings (fst (handleAlarm h n w)) = currentSettings (fst w)"
  by (simp add: handleAlarm_def Let_def performBackup_currentSettings split: option.splits)

lemma handleAlarm_skips:
  "lastAutomaticBackup (fst w) = Some l \<Longrightarrow> 0 < l \<Longrightarrow>
   int (h_now h) - int l < toleranceHours (currentSettings (fst w)) * 60 * 60 * 1000 \<Longrightarrow>
     handleAlarm h n w = w"
  by (simp add: handleAlarm_def)

text \<open>
  Claim C6. After a firing of the alarm handler that leaves a recorded last automatic
  backup time (an instant of \<^verbatim>\<open>Date.now()\<close>, hence positive), a second firing less than
  \<^verbatim>\<open>toleranceHours\<close> hours after that time changes nothing: the in-memory map, the
  recorded time and the store are what the first firing left.
\<close>

theorem handleAlarm_second_firing_noop:
  assumes "lastAutomaticBackup (fst (handleAlarm h1 n1 (bg, br))) = Some l"
    and "0 < l"
    and "int (h_now h2) - int l < toleranceHours (currentSettings bg) * 60 * 60 * 1000"
  shows "handleAlarm h2 n2 (handleAlarm h1 n1 (bg, br)) = handleAlarm h1 n1 (bg, br)"
proof -
  have "currentSettings (fst (handleAlarm h1 n1 (bg, br))) = currentSettings bg"
    by (simp add: handleAlarm_currentSettings)
  with assms(3)
  have "int (h_now h2) - int l
          < toleranceHours (currentSettings (fst (handleAlarm h1 n1 (bg, br)))) * 60 * 60 * 1000"
    by simp
  with assms(1,2) show ?thesis by (rule handleAlarm_skips)
qed

lemmas alarm_defs = handleAlarm_def isBackupDay_def daysOfWeek_def

text \<open>
  Claim C6 on a Monday firing that performs the backup and records its time, followed
  by a firing one hour later under the default tolerance of twelve hours.
\<close>

theorem handleAlarm_second_firing_noop_witness:
  "lastAutomaticBackup (fst (handleAlarm firstFiring ''automaticBackup''
      (mkBackground mondaySettings Map.empty, emptyBrowser))) = Some 2000000000 \<and>
   (0::nat) < 2000000000 \<and>
   int (h_now secondFiring) - int 2000000000
      < toleranceHours (currentSettings (mkBackground mondaySettings Map.empty)) * 60 * 60 * 1000 \<and>
   handleAlarm secondFiring ''automaticBackup''
      (handleAlarm firstFiring ''automaticBackup'' (mkBackground mondaySettings Map.empty, emptyBrowser))
     = handleAlarm firstFiring ''automaticBackup'' (mkBackground mondaySettings Map.empty, emptyBrowser)"
proof -
  have a: "lastAutomaticBackup (fst (handleAlarm firstFiring ''automaticBackup''
      (mkBackground mondaySettings Map.empty, emptyBrowser))) = Some 2000000000"
    by (simp add: alarm_defs scenario_defs firstFiring_def mondaySettings_def DEFAULT_SETTINGS_def Let_def)
  have b: "(0::nat) < 2000000000" by simp
  have c: "int (h_now secondFiring) - int 2000000000
      < toleranceHours (currentSettings (mkBackground mondaySettings Map.empty)) * 60 * 60 * 1000"
    by (simp add: scenario_defs secondFiring_def mondaySettings_def DEFAULT_SETTINGS_def)
  from handleAlarm_second_firing_noop[OF a b c, of "''automaticBackup''"] a b c
  show ?thesis by blast
qed

section \<open>Properties of the settings\<close>

text \<open>
  Claim C8. When the collected \<^verbatim>\<open>minDays\<close> is outside 1..365, or \<^verbatim>\<open>maxTabs\<close> outside
  1..1000, or \<^verbatim>\<open>toleranceHours\<close> outside 1..24, \<^verbatim>\<open>saveSettings\<close> ends with the
  validation error and the store, the alarm and the background script are untouched.
\<close>

theorem saveSettings_rejects_out_of_range:
  assumes "outside (s_minDays (collectSettings f)) 1 365 \<or>
           outside (s_maxTabs (collectSettings f)) 1 1000 \<or>
           outside (s_toleranceHours (collectSettings f)) 1 24"
  shows "\<exists>e. validateSettings (collectSettings f) = Some e \<and> saveSettings h f w = (Inl e, w)"
proof -
  from assms have "validateSettings (collectSettings f) \<noteq> None"
    by (auto simp: validateSettings_def)
  then obtain e where "validateSettings (collectSettings f) = Some e" by blast
  then show ?thesis by (simp add: saveSettings_def Let_def)
qed

text \<open>
  Claim C8 on a form whose minimum is 400 days.
\<close>

theorem saveSettings_rejects_out_of_range_witness:
  "outside (s_minDays (collectSettings outOfRangeForm)) 1 365 \<and>
   saveSettings (mkHost 1000 []) outOfRangeForm (initialBackground, savedBrowser)
     = (Inl ''Minimum days must be between 1 and 365'', initialBackground, savedBrowser)"
proof -
  have a: "outside (s_minDays (collectSettings outOfRangeForm)) 1 365"
    by (simp add: collectSettings_def outOfRangeForm_def)
  have v: "validateSettings (collectSettings outOfRangeForm) = Some ''Minimum days must be between 1 and 365''"
    by (simp add: validateSettings_def collectSettings_def outOfRangeForm_def)
  from saveSettings_rejects_out_of_range[of outOfRangeForm "mkHost 1000 []" "(initialBackground, savedBrowser)"] a v
  show ?thesis by auto
qed

lemma merged_agree_but_minDays:
  "(getSettings br) \<lparr> minDays := m \<rparr>
     = (currentSettings (fst (loadSettings (initialBackground, br)))) \<lparr> minDays := m \<rparr>"
  by (cases "st_settings br")
     (simp_all add: getSettings_def loadSettings_def initialBackground_def mergeSettings_def
        DEFAULT_SETTINGS_def dashboard_DEFAULT_SETTINGS_def emptySettings_def split: option.splits)

lemma merged_agree_when_minDays_stored:
  "st_settings br = Some p \<Longrightarrow> s_minDays p = Some v \<Longrightarrow>
     getSettings br = currentSettings (fst (loadSettings (initialBackground, br)))"
  by (simp add: getSettings_def loadSettings_def mergeSettings_def
        DEFAULT_SETTINGS_def dashboard_DEFAULT_SETTINGS_def split: option.splits)

text \<open>
  Claim C10 against the code: on a store whose settings object is \<^verbatim>\<open>{}\<close>, the
  dashboard's \<^verbatim>\<open>getSettings\<close> yields \<^verbatim>\<open>minDays = -1\<close> and the background's
  \<^verbatim>\<open>loadSettings\<close> yields \<^verbatim>\<open>minDays = 7\<close>, because the two copies of the defaults
  differ in that key.
\<close>

theorem getSettings_loadSettings_differ:
  "minDays (getSettings storeWithEmptySettings) = - 1 \<and>
   minDays (currentSettings (fst (loadSettings (initialBackground, storeWithEmptySettings)))) = 7 \<and>
   minDays dashboard_DEFAULT_SETTINGS = - 1 \<and>
   minDays DEFAULT_SETTINGS = 7"
  by (simp add: getSettings_def loadSettings_def initialBackground_def mergeSettings_def
        DEFAULT_SETTINGS_def dashboard_DEFAULT_SETTINGS_def emptySettings_def
        storeWithEmptySettings_def emptyBrowser_def)

section \<open>Properties of the schedule\<close>

lemma fireTime_after_now: "fireTime h hours minutes = Some w \<Longrightarrow> int (h_now h) < w"
proof -
  assume a: "fireTime h hours minutes = Some w"
  let ?l = "int (h_now h) + h_tz h"
  let ?nb = "?l - ?l mod 86400000 + int hours * 3600000 + int minutes * 60000 - h_tz h"
  have w: "w = (if ?nb \<le> int (h_now h) then ?nb + 86400000 else ?nb)"
    using a by (simp add: fireTime_def Let_def split: if_splits)
  have "?l mod 86400000 < 86400000" by simp
  moreover have "0 \<le> int hours * 3600000 + int minutes * 60000" by simp
  ultimately show ?thesis unfolding w by (simp only: split: if_splits) linarith
qed

lemma fireTime_time_of_day:
  "fireTime h hours minutes = Some w \<Longrightarrow>
     (w + h_tz h) mod 86400000 = (int hours * 3600000 + int minutes * 60000) mod 86400000"
proof -
  assume a: "fireTime h hours minutes = Some w"
  let ?l = "int (h_now h) + h_tz h"
  let ?t = "int hours * 3600000 + int minutes * 60000"
  let ?nb = "?l - ?l mod 86400000 + int hours * 3600000 + int minutes * 60000 - h_tz h"
  have w: "w = (if ?nb \<le> int (h_now h) then ?nb + 86400000 else ?nb)"
    using a by (simp add: fireTime_def Let_def split: if_splits)
  have d: "(?l - ?l mod 86400000) mod 86400000 = 0"
    by (simp add: minus_mod_eq_mult_div)
  have "(?l - ?l mod 86400000 + ?t) mod 86400000
          = ((?l - ?l mod 86400000) mod 86400000 + ?t) mod 86400000"
    by (simp only: mod_add_left_eq)
  then have e1: "(?l - ?l mod 86400000 + ?t) mod 86400000 = ?t mod 86400000"
    by (simp only: d) simp
  have e2: "(?l - ?l mod 86400000 + ?t + 86400000) mod 86400000 = ?t mod 86400000"
    using e1 by (simp only: mod_add_self2)
  have f1: "w + h_tz h = ?l - ?l mod 86400000 + ?t \<or>
            w + h_tz h = ?l - ?l mod 86400000 + ?t + 86400000"
    unfolding w by (simp only: split: if_splits) linarith
  from f1 e1 e2 show ?thesis by (elim disjE) (simp_all only:)
qed

text \<open>
  Claim C5 against the code: the background script's \<^verbatim>\<open>scheduleAutomaticBackup\<close>
  computes the period from \<^verbatim>\<open>backupInterval\<close>, a key that the settings do not have, so
  the alarm it creates has the period \<^verbatim>\<open>NaN\<close>; the options page's function, on the same
  time of day, creates it with 1440 minutes. Both compute the same first fire time.
\<close>

theorem background_alarm_period_not_daily:
  "map_option alarm_periodInMinutes
     (automaticBackupAlarm (snd (scheduleAutomaticBackup (mkHost 1000 [])
        (mkBackground mondaySettings Map.empty, emptyBrowser)))) = Some None \<and>
   map_option alarm_when
     (automaticBackupAlarm (snd (scheduleAutomaticBackup (mkHost 1000 [])
        (mkBackground mondaySettings Map.empty, emptyBrowser)))) = Some (Some 18000000) \<and>
   backupInterval mondaySettings = None \<and>
   automaticBackupAlarm (options_scheduleAutomaticBackup (mkHost 1000 []) ''05:00'' emptyBrowser)
     = Some \<lparr> alarm_when = Some 18000000, alarm_periodInMinutes = Some 1440 \<rparr>"
proof -
  have t: "nextBackupTime (mkHost 1000 []) ''05:00'' = Some 18000000"
    by (simp add: nextBackupTime_def jsNumber_def digitsValue_def isDigit_def fireTime_def
          inDateRange_def mkHost_def Let_def)
  have b: "backupTime mondaySettings = ''05:00''" "backupInterval mondaySettings = None"
    by (simp_all add: mondaySettings_def DEFAULT_SETTINGS_def)
  show ?thesis
    by (simp add: scheduleAutomaticBackup_def options_scheduleAutomaticBackup_def t b
          mkBackground_def emptyBrowser_def)
qed

section \<open>Properties of the dashboard merge\<close>

lemmas dashboard_defs = loadTabLog_def openTabsMapHas_def objectPrototypeNames_def openRow_def
  loggedRow_def loggedUrlSet_def httpUrl_def startsWith_def Let_def

text \<open>
  Claim C4 as stated fails: two persisted records with the same URL, not open in any
  tab, give two rows with that URL.
\<close>

theorem loadTabLog_one_row_per_url_counterexample:
  "map row_url (loadTabLog objectPrototypeNames 1000000000 [] twoRecordsOneUrl)
     = [''https://c.example/'', ''https://c.example/''] \<and>
   map row_tabId (loadTabLog objectPrototypeNames 1000000000 [] twoRecordsOneUrl)
     = [Ident ''k1'', Ident ''k2'']"
  by (simp add: dashboard_defs twoRecordsOneUrl_def closedRecord_def mkRecord_def)

lemma assign_keys:
  "map fst (assign k v m) = (if k \<in> set (map fst m) then map fst m else map fst m @ [k])"
  by (induction m) auto

lemma assign_keyed:
  "\<forall>kv\<in>set m. f (snd kv) = fst kv \<Longrightarrow> f v = k \<Longrightarrow> \<forall>kv\<in>set (assign k v m). f (snd kv) = fst kv"
  by (induction m) auto

lemma openTabsMap_distinct:
  "distinct (map fst m) \<Longrightarrow> distinct (map fst (openTabsMap ts m))"
proof (induction ts arbitrary: m)
  case Nil
  then show ?case by simp
next
  case (Cons t ts)
  have "distinct (map fst (assign (orStr (tab_url t) []) t m))"
    using Cons.prems by (simp add: assign_keys)
  with Cons show ?case by simp
qed

lemma openTabsMap_keys:
  "set (map fst (openTabsMap ts m))
     = set (map fst m) \<union> {u. \<exists>t\<in>set ts. httpUrl (tab_url t) \<and> orStr (tab_url t) [] = u}"
proof (induction ts arbitrary: m)
  case Nil
  then show ?case by simp
next
  case (Cons t ts)
  show ?case
  proof (cases "httpUrl (tab_url t)")
    case False
    with Cons.IH[of m] show ?thesis by auto
  next
    case True
    have "set (map fst (assign (orStr (tab_url t) []) t m)) = insert (orStr (tab_url t) []) (set (map fst m))"
      by (auto simp: assign_keys)
    with True Cons.IH[of "assign (orStr (tab_url t) []) t m"] show ?thesis by auto
  qed
qed

lemma openTabsMap_keyed:
  "\<forall>kv\<in>set m. orStr (tab_url (snd kv)) [] = fst kv \<Longrightarrow>
     \<forall>kv\<in>set (openTabsMap ts m). orStr (tab_url (snd kv)) [] = fst kv"
proof (induction ts arbitrary: m)
  case Nil
  then show ?case by simp
next
  case (Cons t ts)
  have "\<forall>kv\<in>set (assign (orStr (tab_url t) []) t m). orStr (tab_url (snd kv)) [] = fst kv"
    using Cons.prems by (rule assign_keyed) simp
  with Cons show ?case by simp
qed

lemma distinct_key_count:
  "distinct (map fst m) \<Longrightarrow>
     length (filter (\<lambda>kv. fst kv = u) m) = (if u \<in> set (map fst m) then 1 else 0)"
  by (induction m) (auto simp: image_iff)

lemma httpUrl_Some: "httpUrl (tab_url t) \<Longrightarrow> (orStr (tab_url t) [] = u) = (tab_url t = Some u)"
  by (cases "tab_url t") (auto simp: httpUrl_def)

lemma row_url_openRow: "row_url (openRow now logged ut) = orStr (tab_url (snd ut)) []"
  by (simp add: openRow_def Let_def)

lemma row_logged_openRow: "row_logged (openRow now logged ut) = (fst ut \<in> set (loggedUrlSet logged))"
  by (simp add: openRow_def Let_def)

lemma row_url_loggedRow: "row_url (loggedRow now kv) = url (snd kv)"
  by (simp add: loggedRow_def)

lemma open_rows_with_url:
  "\<forall>kv\<in>set m. orStr (tab_url (snd kv)) [] = fst kv \<Longrightarrow>
     filter (\<lambda>r. row_url r = u) (map (openRow now logged) m)
       = map (openRow now logged) (filter (\<lambda>kv. fst kv = u) m)"
  by (induction m) (auto simp: row_url_openRow)

lemma logged_rows_with_url:
  "filter (\<lambda>r. row_url r = u) (map (loggedRow now) l)
     = map (loggedRow now) (filter (\<lambda>kv. url (snd kv) = u) l)"
  by (induction l) (auto simp: row_url_loggedRow)

lemma rows_with_url:
  "filter (\<lambda>r. row_url r = u) (loadTabLog inherited now openTabs logged)
     = map (openRow now logged) (filter (\<lambda>kv. fst kv = u) (openTabsMap openTabs []))
       @ map (loggedRow now)
           (filter (\<lambda>kv. url (snd kv) = u)
              (filter (\<lambda>kv. \<not> openTabsMapHas inherited (openTabsMap openTabs []) (url (snd kv)))
                 logged))"
proof -
  have "\<forall>kv\<in>set (openTabsMap openTabs []). orStr (tab_url (snd kv)) [] = fst kv"
    by (rule openTabsMap_keyed) simp
  then show ?thesis
    by (simp add: loadTabLog_def Let_def open_rows_with_url logged_rows_with_url)
qed

lemma open_keys:
  "fst ` set (openTabsMap openTabs [])
     = {u. \<exists>t\<in>set openTabs. httpUrl (tab_url t) \<and> tab_url t = Some u}"
proof -
  have "{u. \<exists>t\<in>set openTabs. httpUrl (tab_url t) \<and> orStr (tab_url t) [] = u}
          = {u. \<exists>t\<in>set openTabs. httpUrl (tab_url t) \<and> tab_url t = Some u}"
    using httpUrl_Some by blast
  with openTabsMap_keys[of openTabs "[]"] show ?thesis by simp
qed

lemma logged_rows_kept:
  "\<not> openTabsMapHas inherited m u \<Longrightarrow>
     filter (\<lambda>kv. url (snd kv) = u) (filter (\<lambda>kv. \<not> openTabsMapHas inherited m (url (snd kv))) l)
       = filter (\<lambda>kv. url (snd kv) = u) l"
  by (induction l) auto

lemma logged_rows_dropped:
  "openTabsMapHas inherited m u \<Longrightarrow>
     filter (\<lambda>kv. url (snd kv) = u) (filter (\<lambda>kv. \<not> openTabsMapHas inherited m (url (snd kv))) l)
       = []"
  by (induction l) auto

text \<open>
  Claim C4, amended. The URL of an open http or https tab has exactly one row, tagged
  logged exactly when a persisted record has that URL. For a URL that no open http or
  https tab has, the rows are those of the persisted records with that URL, one row for
  each record; unless the URL is the name of a property that a plain object inherits
  (such as \<^verbatim>\<open>toString\<close>), in which case it has no row at all.
\<close>

theorem loadTabLog_rows_per_url:
  "(t \<in> set openTabs \<and> httpUrl (tab_url t) \<and> tab_url t = Some u \<longrightarrow>
      length (filter (\<lambda>r. row_url r = u) (loadTabLog inherited now openTabs logged)) = 1 \<and>
      (\<forall>r\<in>set (loadTabLog inherited now openTabs logged).
         row_url r = u \<longrightarrow> row_logged r = (\<exists>kv\<in>set logged. url (snd kv) = u)))
   \<and> ((\<forall>x\<in>set openTabs. httpUrl (tab_url x) \<longrightarrow> tab_url x \<noteq> Some u) \<and> u \<notin> set inherited \<longrightarrow>
      filter (\<lambda>r. row_url r = u) (loadTabLog inherited now openTabs logged)
        = map (loggedRow now) (filter (\<lambda>kv. url (snd kv) = u) logged))
   \<and> ((\<forall>x\<in>set openTabs. httpUrl (tab_url x) \<longrightarrow> tab_url x \<noteq> Some u) \<and> u \<in> set inherited \<longrightarrow>
      filter (\<lambda>r. row_url r = u) (loadTabLog inherited now openTabs logged) = [])"
proof -
  let ?m = "openTabsMap openTabs []"
  let ?rows = "loadTabLog inherited now openTabs logged"
  have dist: "distinct (map fst ?m)" by (rule openTabsMap_distinct) simp
  have A: "length (filter (\<lambda>r. row_url r = u) ?rows) = 1 \<and>
      (\<forall>r\<in>set ?rows. row_url r = u \<longrightarrow> row_logged r = (\<exists>kv\<in>set logged. url (snd kv) = u))"
    if op: "t \<in> set openTabs \<and> httpUrl (tab_url t) \<and> tab_url t = Some u"
  proof -
    from op have key: "u \<in> fst ` set ?m" by (auto simp: open_keys)
    then have has: "openTabsMapHas inherited ?m u" by (simp add: openTabsMapHas_def)
    from op have ne: "u \<noteq> []" by (auto simp: httpUrl_def)
    note none = logged_rows_dropped[OF has, of logged]
    have one: "length (filter (\<lambda>kv. fst kv = u) ?m) = 1"
      using distinct_key_count[OF dist, of u] key by simp
    have cnt: "length (filter (\<lambda>r. row_url r = u) ?rows) = 1"
      by (simp only: rows_with_url none) (simp add: one)
    have lg: "(u \<in> set (loggedUrlSet logged)) = (\<exists>kv\<in>set logged. url (snd kv) = u)"
      using ne by (auto simp: loggedUrlSet_def)
    have tag: "\<forall>r\<in>set ?rows. row_url r = u \<longrightarrow> row_logged r = (\<exists>kv\<in>set logged. url (snd kv) = u)"
    proof (intro ballI impI)
      fix r assume "r \<in> set ?rows" and "row_url r = u"
      then have "r \<in> set (filter (\<lambda>r. row_url r = u) ?rows)" by simp
      then have "r \<in> set (map (openRow now logged) (filter (\<lambda>kv. fst kv = u) ?m))"
        by (simp only: rows_with_url none) simp
      then obtain kv where "r = openRow now logged kv" "fst kv = u" by auto
      then show "row_logged r = (\<exists>kv\<in>set logged. url (snd kv) = u)"
        by (simp add: row_logged_openRow lg)
    qed
    from cnt tag show ?thesis ..
  qed
  have closed: "filter (\<lambda>kv. fst kv = u) ?m = []"
    if cl: "\<forall>x\<in>set openTabs. httpUrl (tab_url x) \<longrightarrow> tab_url x \<noteq> Some u"
  proof -
    from cl have "u \<notin> fst ` set ?m" by (auto simp: open_keys)
    then show ?thesis by (auto simp: filter_empty_conv)
  qed
  have B: "filter (\<lambda>r. row_url r = u) ?rows = map (loggedRow now) (filter (\<lambda>kv. url (snd kv) = u) logged)"
    if cl: "(\<forall>x\<in>set openTabs. httpUrl (tab_url x) \<longrightarrow> tab_url x \<noteq> Some u) \<and> u \<notin> set inherited"
  proof -
    from cl have "u \<notin> fst ` set ?m" by (auto simp: open_keys)
    with cl have "\<not> openTabsMapHas inherited ?m u" by (simp add: openTabsMapHas_def)
    note kept = logged_rows_kept[OF this, of logged]
    from cl have e: "filter (\<lambda>kv. fst kv = u) ?m = []" by (simp add: closed)
    show ?thesis by (simp only: rows_with_url kept e) simp
  qed
  have C: "filter (\<lambda>r. row_url r = u) ?rows = []"
    if cl: "(\<forall>x\<in>set openTabs. httpUrl (tab_url x) \<longrightarrow> tab_url x \<noteq> Some u) \<and> u \<in> set inherited"
  proof -
    from cl have "openTabsMapHas inherited ?m u" by (simp add: openTabsMapHas_def)
    note none = logged_rows_dropped[OF this, of logged]
    from cl have e: "filter (\<lambda>kv. fst kv = u) ?m = []" by (simp add: closed)
    show ?thesis by (simp only: rows_with_url none e) simp
  qed
  from A B C show ?thesis by blast
qed

text \<open>
  Claim C4, amended, on two open tabs and four persisted records: one with an open URL,
  two sharing a URL that is not open, and one whose url is \<^verbatim>\<open>toString\<close>.
\<close>

theorem loadTabLog_rows_per_url_witness:
  "mkTab 1 ''https://a.example/'' ''A'' \<in> set twoTabs \<and>
   httpUrl (tab_url (mkTab 1 ''https://a.example/'' ''A'')) \<and>
   tab_url (mkTab 1 ''https://a.example/'' ''A'') = Some ''https://a.example/'' \<and>
   length (filter (\<lambda>r. row_url r = ''https://a.example/'')
      (loadTabLog objectPrototypeNames 1000000000 twoTabs mixedLog)) = 1 \<and>
   map (tab_url) twoTabs = [Some ''https://a.example/'', Some ''https://b.example/''] \<and>
   map row_tabId (filter (\<lambda>r. row_url r = ''https://c.example/'')
      (loadTabLog objectPrototypeNames 1000000000 twoTabs mixedLog)) = [Ident ''k1'', Ident ''k2''] \<and>
   ''toString'' \<in> set objectPrototypeNames \<and>
   filter (\<lambda>r. row_url r = ''toString'')
      (loadTabLog objectPrototypeNames 1000000000 twoTabs mixedLog) = []"
proof -
  have a: "mkTab 1 ''https://a.example/'' ''A'' \<in> set twoTabs \<and>
   httpUrl (tab_url (mkTab 1 ''https://a.example/'' ''A'')) \<and>
   tab_url (mkTab 1 ''https://a.example/'' ''A'') = Some ''https://a.example/''"
    by (simp add: twoTabs_def mkTab_def httpUrl_def startsWith_def)
  have b: "\<forall>x\<in>set twoTabs. httpUrl (tab_url x) \<longrightarrow> tab_url x \<noteq> Some ''https://c.example/''"
    by (simp add: twoTabs_def mkTab_def)
  have b2: "\<forall>x\<in>set twoTabs. httpUrl (tab_url x) \<longrightarrow> tab_url x \<noteq> Some ''toString''"
    by (simp add: twoTabs_def mkTab_def)
  have n: "''https://c.example/'' \<notin> set objectPrototypeNames"
    by (simp add: objectPrototypeNames_def)
  have p: "''toString'' \<in> set objectPrototypeNames"
    by (simp add: objectPrototypeNames_def)
  note w1 = loadTabLog_rows_per_url[of "mkTab 1 ''https://a.example/'' ''A''" twoTabs
      "''https://a.example/''" objectPrototypeNames 1000000000 mixedLog]
  note w2 = loadTabLog_rows_per_url[of "mkTab 1 ''https://a.example/'' ''A''" twoTabs
      "''https://c.example/''" objectPrototypeNames 1000000000 mixedLog]
  note w3 = loadTabLog_rows_per_url[of "mkTab 1 ''https://a.example/'' ''A''" twoTabs
      "''toString''" objectPrototypeNames 1000000000 mixedLog]
  from w1 a have c1: "length (filter (\<lambda>r. row_url r = ''https://a.example/'')
      (loadTabLog objectPrototypeNames 1000000000 twoTabs mixedLog)) = 1" by blast
  from w2 b n have "filter (\<lambda>r. row_url r = ''https://c.example/'')
      (loadTabLog objectPrototypeNames 1000000000 twoTabs mixedLog)
        = map (loggedRow 1000000000) (filter (\<lambda>kv. url (snd kv) = ''https://c.example/'') mixedLog)"
    by blast
  then have c2: "map row_tabId (filter (\<lambda>r. row_url r = ''https://c.example/'')
      (loadTabLog objectPrototypeNames 1000000000 twoTabs mixedLog)) = [Ident ''k1'', Ident ''k2'']"
    by (simp add: mixedLog_def closedRecord_def oldRecord_def prototypeRecord_def mkRecord_def
          loggedRow_def)
  from w3 b2 p have c3: "filter (\<lambda>r. row_url r = ''toString'')
      (loadTabLog objectPrototypeNames 1000000000 twoTabs mixedLog) = []"
    by blast
  have d: "map (tab_url) twoTabs = [Some ''https://a.example/'', Some ''https://b.example/'']"
    by (simp add: twoTabs_def mkTab_def)
  from a d c1 c2 p c3 show ?thesis by blast
qed

end
